theory Spec2Isabelle
  imports Main "HOL-Library.Word"
begin

section \<open>Paths: \<open>filepath.Join\<close> on a Unix system\<close>

text \<open>
  \<open>writeFiles\<close> builds every destination path with \<open>filepath.Join(directory, ef.DestName)\<close>.
  On Unix, \<open>Join\<close> glues the elements from the first non-empty one on with \<open>/\<close> and returns
  \<open>Clean\<close> of that. \<open>Clean\<close> is modelled on path components: empty components and \<open>.\<close>
  are dropped, \<open>..\<close> removes the component before it (at the root it disappears, at the
  start of a relative path it stays), and the empty result is \<open>.\<close>.
\<close>

type_synonym path = string

fun split_path :: "string \<Rightarrow> string list" where
  "split_path [] = [[]]"
| "split_path (c # cs) =
     (if c = CHR ''/'' then [] # split_path cs
      else (case split_path cs of [] \<Rightarrow> [[c]] | x # xs \<Rightarrow> (c # x) # xs))"

fun join_slash :: "string list \<Rightarrow> string" where
  "join_slash [] = []"
| "join_slash [x] = x"
| "join_slash (x # y # ys) = x @ CHR ''/'' # join_slash (y # ys)"

definition rooted :: "string \<Rightarrow> bool" where
  "rooted p = (case p of [] \<Rightarrow> False | c # _ \<Rightarrow> c = CHR ''/'')"

definition clean_step :: "bool \<Rightarrow> string list \<Rightarrow> string \<Rightarrow> string list" where
  "clean_step r stk c =
     (if c = [] \<or> c = ''.'' then stk
      else if c = ''..'' then
        (if stk \<noteq> [] \<and> last stk \<noteq> ''..'' then butlast stk
         else if r then stk
         else stk @ [c])
      else stk @ [c])"

definition Clean :: "string \<Rightarrow> string" where
  "Clean p =
     (let out = (if rooted p then ''/'' else []) @
                join_slash (foldl (clean_step (rooted p)) [] (split_path p))
      in if out = [] then ''.'' else out)"

definition Join :: "string \<Rightarrow> string \<Rightarrow> string" where
  "Join a b =
     (if a \<noteq> [] then Clean (a @ CHR ''/'' # b)
      else if b \<noteq> [] then Clean b
      else [])"

section \<open>The file system seen through \<open>os.Stat\<close> and \<open>os.WriteFile\<close>\<close>

text \<open>
  The file system is a flat table from the path strings the program passes to the operating
  system to what they name: a regular file with its bytes, a directory, or a symbolic link
  with its target. Two predicates stand for the permission system: \<open>search_ok p\<close> says the
  process may look \<open>p\<close> up, \<open>write_ok p\<close> says it may create or truncate a file at \<open>p\<close>.
  \<open>write_calls\<close> is a log of every \<open>os.WriteFile\<close> invocation, successful or not, so that
  "no write is attempted" can be told apart from "the write failed".
\<close>

type_synonym bytes = "8 word list"

datatype errno = ENOENT | EACCES | EISDIR | ELOOP

record PathError =
  Op :: string
  Path :: string
  Err :: errno

datatype node = File bytes | Dir | Symlink path

record filesys =
  objects :: "path \<Rightarrow> node option"
  search_ok :: "path \<Rightarrow> bool"
  write_ok :: "path \<Rightarrow> bool"
  write_calls :: "(path \<times> bytes) list"

record FileInfo =
  IsDir :: bool

text \<open>
  Both calls follow symbolic links. \<open>follow fs n p\<close> follows at most \<open>n\<close> links from \<open>p\<close>
  and returns the path reached with what is there (nothing, when the last link dangles);
  one link more is \<open>ELOOP\<close>. The kernel allows 40.
\<close>

fun follow :: "filesys \<Rightarrow> nat \<Rightarrow> path \<Rightarrow> errno + path \<times> node option" where
  "follow fs 0 p =
     (case objects fs p of Some (Symlink t) \<Rightarrow> Inl ELOOP | other \<Rightarrow> Inr (p, other))"
| "follow fs (Suc n) p =
     (case objects fs p of Some (Symlink t) \<Rightarrow> follow fs n t | other \<Rightarrow> Inr (p, other))"

definition MAXSYMLINKS :: nat where
  "MAXSYMLINKS = 40"

definition os_Stat :: "filesys \<Rightarrow> string \<Rightarrow> PathError + FileInfo" where
  "os_Stat fs name =
     (if \<not> search_ok fs name then Inl \<lparr>Op = ''stat'', Path = name, Err = EACCES\<rparr>
      else case follow fs MAXSYMLINKS name of
        Inl e \<Rightarrow> Inl \<lparr>Op = ''stat'', Path = name, Err = e\<rparr>
      | Inr (q, None) \<Rightarrow> Inl \<lparr>Op = ''stat'', Path = name, Err = ENOENT\<rparr>
      | Inr (q, Some (File c)) \<Rightarrow> Inr \<lparr>IsDir = False\<rparr>
      | Inr (q, Some Dir) \<Rightarrow> Inr \<lparr>IsDir = True\<rparr>
      | Inr (q, Some (Symlink t)) \<Rightarrow> Inl \<lparr>Op = ''stat'', Path = name, Err = ELOOP\<rparr>)"

text \<open>
  \<open>os.WriteFile(name, data, 0644)\<close> opens \<open>name\<close> with \<open>O_WRONLY|O_CREATE|O_TRUNC\<close> and writes
  \<open>data\<close>: a missing file is created (also at the target of a dangling link), a regular file is
  replaced, a directory is refused. The result is the error, if any, and the file system
  after the call. A call that fails is taken to leave the files as they were; the permission
  bits of the new file are not modelled.
\<close>

definition os_WriteFile :: "filesys \<Rightarrow> string \<Rightarrow> bytes \<Rightarrow> PathError option \<times> filesys" where
  "os_WriteFile fs name data =
     (let fs1 = fs\<lparr>write_calls := write_calls fs @ [(name, data)]\<rparr> in
      if \<not> search_ok fs name then (Some \<lparr>Op = ''open'', Path = name, Err = EACCES\<rparr>, fs1)
      else case follow fs MAXSYMLINKS name of
        Inl e \<Rightarrow> (Some \<lparr>Op = ''open'', Path = name, Err = e\<rparr>, fs1)
      | Inr (q, Some Dir) \<Rightarrow> (Some \<lparr>Op = ''open'', Path = name, Err = EISDIR\<rparr>, fs1)
      | Inr (q, other) \<Rightarrow>
          if write_ok fs q then (None, fs1\<lparr>objects := (objects fs)(q \<mapsto> File data)\<rparr>)
          else (Some \<lparr>Op = ''open'', Path = name, Err = EACCES\<rparr>, fs1))"

section \<open>The data types of the program\<close>

text \<open>\<open>Result\<close> holds the outcome of an init operation.\<close>

record Result =
  Directory :: string
  FilesCreated :: "string list"

text \<open>
  A value of Go's \<open>any\<close> that \<open>encoding/json\<close> has decoded: \<open>nil\<close>, \<open>bool\<close>,
  \<open>float64\<close> (its 64 bits), \<open>string\<close>, \<open>[]any\<close> or \<open>map[string]any\<close>.
\<close>

datatype any_value =
    JNull
  | JBool bool
  | JNumber "64 word"
  | JString string
  | JArray "any_value list"
  | JObject "(string \<times> any_value) list"

text \<open>
  \<open>json.Marshal\<close> reports an error only for a value of a type or shape it cannot encode (a
  channel, a function, a NaN, a cycle); the values marshalled by this program, a \<open>Result\<close>
  and a \<open>JSONRPCResponse\<close> whose \<open>ID\<close> was decoded from JSON, have none. The text it
  returns is represented by the value it encodes.
\<close>

datatype 'a encoded = JSON 'a

definition json_Marshal :: "'a \<Rightarrow> string + 'a encoded" where
  "json_Marshal v = Inr (JSON v)"

record JSONRPCRequest =
  JSONRPC :: string
  ID :: any_value
  Method :: string
  Params :: string

record Error =
  Code :: int
  Message :: string

record ServerInfo =
  Name :: string
  Version :: string

record Capabilities =
  Tools :: "string \<Rightarrow> bool option"

record InitializeResult =
  ProtocolVersion :: string
  ServerInfo :: ServerInfo
  Capabilities :: Capabilities

record Property =
  Type :: string
  Description :: string

record InputSchema =
  Type :: string
  Properties :: "string \<Rightarrow> Property option"
  Required :: "string list"

record Tool =
  Name :: string
  Description :: string
  InputSchema :: InputSchema

record ToolsListResult =
  Tools :: "Tool list"

record ToolCallParams =
  Name :: string
  Arguments :: "string \<Rightarrow> any_value option"

record ContentItem =
  Type :: string
  Text :: "Result encoded"

record ToolCallResult =
  Content :: "ContentItem list"

text \<open>What the \<open>any\<close>-typed \<open>Result\<close> field of a response holds in this program.\<close>

datatype result_value =
    OfInitializeResult InitializeResult
  | OfToolsListResult ToolsListResult
  | OfToolCallResult ToolCallResult

text \<open>
  \<open>Result\<close> and \<open>Error\<close> are \<open>omitempty\<close>: \<open>None\<close> is the nil interface, respectively the
  nil pointer, and the field is then absent from the encoding.
\<close>

record JSONRPCResponse =
  JSONRPC :: string
  ID :: any_value
  Result :: "result_value option"
  Error :: "Error option"

section \<open>The template set and \<open>writeFiles\<close>\<close>

record EmbeddedFile =
  Content :: bytes
  DestName :: string

text \<open>
  The bytes of \<open>files/FILE1\<close> and \<open>files/FILE2\<close> are compiled in with \<open>go:embed\<close>; they are
  parameters here.
\<close>

definition embeddedFiles :: "bytes \<Rightarrow> bytes \<Rightarrow> EmbeddedFile list" where
  "embeddedFiles file1Content file2Content =
     [\<lparr>Content = file1Content, DestName = ''LICENSE''\<rparr>,
      \<lparr>Content = file2Content, DestName = ''CONTRIBUTING.md''\<rparr>]"

text \<open>One constructor for each \<open>fmt.Errorf\<close> of \<open>writeFiles\<close>, in the order of the source.\<close>

datatype init_error =
    CheckingDirectory PathError
  | NotADirectory string
  | AlreadyExists string
  | Writing string PathError

text \<open>
  The loop \<open>for _, ef := range embeddedFiles\<close> of \<open>writeFiles\<close>, with \<open>created\<close> as
  accumulator. The package-level variable \<open>embeddedFiles\<close> is an argument, here and in the
  functions that call \<open>writeFiles\<close>; the statements below instantiate it with
  \<open>embeddedFiles file1Content file2Content\<close>.
\<close>

fun writeLoop ::
  "string \<Rightarrow> EmbeddedFile list \<Rightarrow> string list \<Rightarrow> filesys \<Rightarrow> (init_error + string list) \<times> filesys"
where
  "writeLoop directory [] created fs = (Inr created, fs)"
| "writeLoop directory (ef # rest) created fs =
     (let destPath = Join directory (DestName ef) in
      case os_Stat fs destPath of
        Inr info \<Rightarrow> (Inl (AlreadyExists destPath), fs)
      | Inl e \<Rightarrow>
         (case os_WriteFile fs destPath (Content ef) of
            (Some err, fs') \<Rightarrow> (Inl (Writing (DestName ef) err), fs')
          | (None, fs') \<Rightarrow> writeLoop directory rest (created @ [destPath]) fs'))"

definition writeFiles ::
  "EmbeddedFile list \<Rightarrow> string \<Rightarrow> filesys \<Rightarrow> (init_error + Result) \<times> filesys"
where
  "writeFiles embedded directory fs =
     (case os_Stat fs directory of
        Inl err \<Rightarrow> (Inl (CheckingDirectory err), fs)
      | Inr info \<Rightarrow>
          if \<not> IsDir info then (Inl (NotADirectory directory), fs)
          else (case writeLoop directory embedded [] fs of
                  (Inl e, fs') \<Rightarrow> (Inl e, fs')
                | (Inr created, fs') \<Rightarrow>
                    (Inr \<lparr>Directory = directory, FilesCreated = created\<rparr>, fs')))"

text \<open>
  The message of each error, as \<open>fmt.Errorf\<close> and \<open>%w\<close> build it: a \<open>*PathError\<close> prints
  as \<open>op path: errno\<close>.
\<close>

fun errno_string :: "errno \<Rightarrow> string" where
  "errno_string ENOENT = ''no such file or directory''"
| "errno_string EACCES = ''permission denied''"
| "errno_string EISDIR = ''is a directory''"
| "errno_string ELOOP = ''too many levels of symbolic links''"

definition PathError_string :: "PathError \<Rightarrow> string" where
  "PathError_string e = Op e @ '' '' @ Path e @ '': '' @ errno_string (Err e)"

fun Error_string :: "init_error \<Rightarrow> string" where
  "Error_string (CheckingDirectory err) = ''checking directory: '' @ PathError_string err"
| "Error_string (NotADirectory directory) = ''not a directory: '' @ directory"
| "Error_string (AlreadyExists destPath) =
     ''file already exists, refusing to overwrite: '' @ destPath"
| "Error_string (Writing destName err) =
     ''writing '' @ destName @ '': '' @ PathError_string err"

section \<open>The MCP server\<close>

text \<open>
  The state the server acts on: the file system, the lines printed on standard output (each
  the encoding of one response) and the lines printed on standard error.
\<close>

record world =
  disk :: filesys
  stdout :: "JSONRPCResponse encoded list"
  stderr :: "string list"

text \<open>
  \<open>json.Unmarshal\<close> is a parameter of the model, once for each target type: \<open>None\<close> is a
  non-nil error.
\<close>

record json_lib =
  Unmarshal_request :: "string \<Rightarrow> JSONRPCRequest option"
  Unmarshal_params :: "string \<Rightarrow> ToolCallParams option"

definition sendResponse :: "any_value \<Rightarrow> result_value option \<Rightarrow> world \<Rightarrow> world" where
  "sendResponse id' result w =
     (let resp = \<lparr>JSONRPC = ''2.0'', ID = id', Result = result, Error = None\<rparr> in
      case json_Marshal resp of
        Inl err \<Rightarrow> w\<lparr>stderr := stderr w @ [''Failed to marshal response: '' @ err]\<rparr>
      | Inr data \<Rightarrow> w\<lparr>stdout := stdout w @ [data]\<rparr>)"

definition sendError :: "any_value \<Rightarrow> int \<Rightarrow> string \<Rightarrow> world \<Rightarrow> world" where
  "sendError id' code message w =
     (let resp = \<lparr>JSONRPC = ''2.0'', ID = id', Result = None,
                  Error = Some \<lparr>Code = code, Message = message\<rparr>\<rparr> in
      case json_Marshal resp of
        Inl err \<Rightarrow> w\<lparr>stderr := stderr w @ [''Failed to marshal error response: '' @ err]\<rparr>
      | Inr data \<Rightarrow> w\<lparr>stdout := stdout w @ [data]\<rparr>)"

definition handleInitialize :: "JSONRPCRequest \<Rightarrow> world \<Rightarrow> world" where
  "handleInitialize req w =
     (let result = \<lparr>ProtocolVersion = ''2024-11-05'',
                    ServerInfo = \<lparr>ServerInfo.Name = ''init'', Version = ''1.0.0''\<rparr>,
                    Capabilities = \<lparr>Capabilities.Tools = [''list'' \<mapsto> True, ''call'' \<mapsto> True]\<rparr>\<rparr>
      in sendResponse (JSONRPCRequest.ID req) (Some (OfInitializeResult result)) w)"

definition handleToolsList :: "JSONRPCRequest \<Rightarrow> world \<Rightarrow> world" where
  "handleToolsList req w =
     (let result = \<lparr>ToolsListResult.Tools =
        [\<lparr>Tool.Name = ''init'',
          Tool.Description = ''Write embedded template files to a target directory. Refuses to overwrite existing files.'',
          InputSchema =
            \<lparr>InputSchema.Type = ''object'',
             Properties = [''directory'' \<mapsto>
               \<lparr>Property.Type = ''string'',
                Property.Description = ''Absolute path to the directory where files will be created''\<rparr>],
             Required = [''directory'']\<rparr>\<rparr>]\<rparr>
      in sendResponse (JSONRPCRequest.ID req) (Some (OfToolsListResult result)) w)"

definition handleToolsCall ::
  "json_lib \<Rightarrow> EmbeddedFile list \<Rightarrow> JSONRPCRequest \<Rightarrow> world \<Rightarrow> world"
where
  "handleToolsCall J embedded req w =
     (case Unmarshal_params J (Params req) of
        None \<Rightarrow> sendError (JSONRPCRequest.ID req) (- 32602) ''Invalid params'' w
      | Some params \<Rightarrow>
          if ToolCallParams.Name params \<noteq> ''init''
          then sendError (JSONRPCRequest.ID req) (- 32602) ''Unknown tool'' w
          else
            (let (directory, ok) =
                   (case Arguments params ''directory'' of
                      Some (JString s) \<Rightarrow> (s, True)
                    | _ \<Rightarrow> ([], False))
             in if \<not> ok \<or> directory = []
                then sendError (JSONRPCRequest.ID req) (- 32602)
                       (''Missing or invalid '' @ [CHR 0x27] @ ''directory'' @ [CHR 0x27] @ '' parameter'') w
                else
                  (case writeFiles embedded directory (disk w) of
                     (Inl err, fs') \<Rightarrow>
                       sendError (JSONRPCRequest.ID req) (- 32603)
                         (''Init failed: '' @ Error_string err) (w\<lparr>disk := fs'\<rparr>)
                   | (Inr result, fs') \<Rightarrow>
                       (case json_Marshal result of
                          Inl err \<Rightarrow>
                            sendError (JSONRPCRequest.ID req) (- 32603)
                              ''Failed to marshal result'' (w\<lparr>disk := fs'\<rparr>)
                        | Inr jsonResult \<Rightarrow>
                            (let response = \<lparr>ToolCallResult.Content =
                                   [\<lparr>ContentItem.Type = ''text'', Text = jsonResult\<rparr>]\<rparr>
                             in sendResponse (JSONRPCRequest.ID req)
                                  (Some (OfToolCallResult response)) (w\<lparr>disk := fs'\<rparr>))))))"

definition handleRequest ::
  "json_lib \<Rightarrow> EmbeddedFile list \<Rightarrow> JSONRPCRequest \<Rightarrow> world \<Rightarrow> world"
where
  "handleRequest J embedded req w =
     (if Method req = ''initialize'' then handleInitialize req w
      else if Method req = ''tools/list'' then handleToolsList req w
      else if Method req = ''tools/call'' then handleToolsCall J embedded req w
      else sendError (JSONRPCRequest.ID req) (- 32601) ''Method not found'' w)"

text \<open>
  \<open>runMCPServer\<close> loops over a \<open>select\<close> with three cases. What each \<open>select\<close> receives is
  decided by the reader goroutine, the signal goroutine and the scheduler; the model takes
  the sequence of outcomes as its input. An outcome list that ends without a returning case
  is a server waiting in \<open>select\<close>.
\<close>

datatype select_case =
    CtxDone
  | ErrChan string
  | LineChan string
  | LineChanClosed

fun runMCPServer ::
  "json_lib \<Rightarrow> EmbeddedFile list \<Rightarrow> select_case list \<Rightarrow> world \<Rightarrow> world"
where
  "runMCPServer J embedded [] w = w"
| "runMCPServer J embedded (CtxDone # rest) w = w"
| "runMCPServer J embedded (ErrChan err # rest) w =
     w\<lparr>stderr := stderr w @ [''Scanner error: '' @ err]\<rparr>"
| "runMCPServer J embedded (LineChanClosed # rest) w = w"
| "runMCPServer J embedded (LineChan line # rest) w =
     (if line = [] then runMCPServer J embedded rest w
      else case Unmarshal_request J line of
        None \<Rightarrow> runMCPServer J embedded rest (sendError JNull (- 32700) ''Parse error'' w)
      | Some req \<Rightarrow> runMCPServer J embedded rest (handleRequest J embedded req w))"

section \<open>Notions used in the statements\<close>

text \<open>
  A plain name is a single path component: not empty, not \<open>.\<close> or \<open>..\<close>, without a slash.
  Both destination names of the template set are plain. \<open>dest_prefix d\<close> is what \<open>Join d\<close>
  puts in front of a plain name.
\<close>

definition plain :: "string \<Rightarrow> bool" where
  "plain n = (n \<noteq> [] \<and> n \<noteq> ''.'' \<and> n \<noteq> ''..'' \<and> CHR ''/'' \<notin> set n)"

definition dest_prefix :: "string \<Rightarrow> string" where
  "dest_prefix d =
     (if d = [] then []
      else (let stk = foldl (clean_step (rooted d)) [] (split_path d)
            in (if rooted d then ''/'' else []) @
               (if stk = [] then [] else join_slash stk @ ''/'')))"

text \<open>A path at which nothing exists and at which the process may create a file.\<close>

definition creatable :: "filesys \<Rightarrow> path \<Rightarrow> bool" where
  "creatable fs p = (objects fs p = None \<and> search_ok fs p \<and> write_ok fs p)"

text \<open>
  The lines the loop receives before it returns: those that arrive before the first outcome
  that is not a line (cancellation, a scanner error, the end of the input).
\<close>

fun received :: "select_case list \<Rightarrow> string list" where
  "received (LineChan line # rest) = line # received rest"
| "received evs = []"

text \<open>The response the loop sends for a line that is not a request: \<open>sendError(nil, -32700, "Parse error")\<close>.\<close>

definition parse_error_response :: JSONRPCResponse where
  "parse_error_response =
     \<lparr>JSONRPC = ''2.0'', ID = JNull, Result = None,
      Error = Some \<lparr>Code = - 32700, Message = ''Parse error''\<rparr>\<rparr>"

section \<open>Example states\<close>

text \<open>
  Embedded contents and directories for the concrete runs below: an empty directory, the same
  directory without write permission, a directory that already holds \<open>CONTRIBUTING.md\<close> (with
  and without write permission), one that holds \<open>LICENSE\<close>, one where \<open>LICENSE\<close> is a
  symbolic link to a file that does not exist, and one that holds \<open>LICENSE\<close> but whose
  entries the process may not look up.
\<close>

definition lic :: bytes where "lic = [0x4D, 0x49, 0x54]"
definition contrib :: bytes where "contrib = [0x48, 0x69]"
definition old :: bytes where "old = [0x6F, 0x6C, 0x64]"

definition empty_dir :: filesys where
  "empty_dir = \<lparr>objects = [''/tmp/proj'' \<mapsto> Dir], search_ok = (\<lambda>p. True),
                 write_ok = (\<lambda>p. True), write_calls = []\<rparr>"

definition readonly_dir :: filesys where
  "readonly_dir = \<lparr>objects = [''/tmp/proj'' \<mapsto> Dir], search_ok = (\<lambda>p. True),
                 write_ok = (\<lambda>p. False), write_calls = []\<rparr>"

definition populated_dir :: filesys where
  "populated_dir = \<lparr>objects = [''/tmp/proj'' \<mapsto> Dir, ''/tmp/proj/CONTRIBUTING.md'' \<mapsto> File old],
                 search_ok = (\<lambda>p. True), write_ok = (\<lambda>p. True), write_calls = []\<rparr>"

definition readonly_populated_dir :: filesys where
  "readonly_populated_dir = \<lparr>objects = [''/tmp/proj'' \<mapsto> Dir, ''/tmp/proj/CONTRIBUTING.md'' \<mapsto> File old],
                 search_ok = (\<lambda>p. True), write_ok = (\<lambda>p. False), write_calls = []\<rparr>"

definition licensed_dir :: filesys where
  "licensed_dir = \<lparr>objects = [''/tmp/proj'' \<mapsto> Dir, ''/tmp/proj/LICENSE'' \<mapsto> File old],
                 search_ok = (\<lambda>p. True), write_ok = (\<lambda>p. True), write_calls = []\<rparr>"

definition dangling_dir :: filesys where
  "dangling_dir = \<lparr>objects = [''/tmp/proj'' \<mapsto> Dir, ''/tmp/proj/LICENSE'' \<mapsto> Symlink ''/tmp/gone''],
                 search_ok = (\<lambda>p. True), write_ok = (\<lambda>p. True), write_calls = []\<rparr>"

definition locked_dir :: filesys where
  "locked_dir = \<lparr>objects = [''/tmp/proj'' \<mapsto> Dir, ''/tmp/proj/LICENSE'' \<mapsto> File old],
                 search_ok = (\<lambda>p. p = ''/tmp/proj''), write_ok = (\<lambda>p. True), write_calls = []\<rparr>"

text \<open>
  Input lines and a decoder that knows them: three requests whose ids are a number (7), a
  string and \<open>null\<close>, a \<open>tools/call\<close> request, and a line that is not JSON.
\<close>

definition tools_list_line :: string where
  \<open>tools_list_line = ''{"jsonrpc":"2.0","id":7,"method":"tools/list"}''\<close>

definition initialize_line :: string where
  \<open>initialize_line = ''{"jsonrpc":"2.0","id":"a","method":"initialize"}''\<close>

definition unknown_line :: string where
  \<open>unknown_line = ''{"jsonrpc":"2.0","id":null,"method":"ping"}''\<close>

definition malformed_line :: string where
  \<open>malformed_line = ''{"jsonrpc":''\<close>

definition tools_call_line :: string where
  \<open>tools_call_line = ''{"jsonrpc":"2.0","id":1,"method":"tools/call","params":{"name":"init","arguments":{"directory":"/tmp/proj"}}}''\<close>

definition tools_call_params :: string where
  \<open>tools_call_params = ''{"name":"init","arguments":{"directory":"/tmp/proj"}}''\<close>

definition sample_json :: json_lib where
  "sample_json =
     \<lparr>Unmarshal_request = (\<lambda>line.
        if line = tools_list_line then
          Some \<lparr>JSONRPCRequest.JSONRPC = ''2.0'', JSONRPCRequest.ID = JNumber 0x401C000000000000,
                Method = ''tools/list'', Params = []\<rparr>
        else if line = initialize_line then
          Some \<lparr>JSONRPCRequest.JSONRPC = ''2.0'', JSONRPCRequest.ID = JString ''a'',
                Method = ''initialize'', Params = []\<rparr>
        else if line = unknown_line then
          Some \<lparr>JSONRPCRequest.JSONRPC = ''2.0'', JSONRPCRequest.ID = JNull,
                Method = ''ping'', Params = []\<rparr>
        else if line = tools_call_line then
          Some \<lparr>JSONRPCRequest.JSONRPC = ''2.0'', JSONRPCRequest.ID = JNumber 0x3FF0000000000000,
                Method = ''tools/call'', Params = tools_call_params\<rparr>
        else None),
      Unmarshal_params = (\<lambda>raw.
        if raw = tools_call_params then
          Some \<lparr>ToolCallParams.Name = ''init'',
                Arguments = [''directory'' \<mapsto> JString ''/tmp/proj'']\<rparr>
        else None)\<rparr>"

definition start :: world where
  "start = \<lparr>disk = empty_dir, stdout = [], stderr = []\<rparr>"

section \<open>Facts about paths\<close>

text \<open>
  \<open>Join d\<close> puts the same prefix in front of every plain name, so different plain names give
  different destination paths in the same directory, and the destinations below a rooted
  directory are rooted.
\<close>

lemma split_path_nonempty: "split_path s \<noteq> []"
  by (induction s) (auto split: list.splits)

lemma split_path_append:
  "split_path (a @ CHR ''/'' # b) = split_path a @ split_path b"
  by (induction a) (auto split: list.splits simp: split_path_nonempty)

lemma split_path_plain: "CHR ''/'' \<notin> set n \<Longrightarrow> split_path n = [n]"
  by (induction n) auto

lemma join_slash_snoc:
  "join_slash (xs @ [n]) = (if xs = [] then n else join_slash xs @ CHR ''/'' # n)"
  by (induction xs rule: join_slash.induct) auto

lemma rooted_append: "a \<noteq> [] \<Longrightarrow> rooted (a @ b) = rooted a"
  by (cases a) (auto simp: rooted_def)

lemma plain_not_rooted: "plain n \<Longrightarrow> \<not> rooted n"
  by (cases n) (auto simp: rooted_def plain_def)

lemma Join_plain: "plain n \<Longrightarrow> Join d n = dest_prefix d @ n"
proof (cases "d = []")
  case True
  assume "plain n"
  then show ?thesis using True
    by (simp add: Join_def Clean_def dest_prefix_def plain_not_rooted split_path_plain
        clean_step_def plain_def)
next
  case False
  assume p: "plain n"
  have s: "split_path (d @ CHR ''/'' # n) = split_path d @ [n]"
    using p by (simp add: split_path_append split_path_plain plain_def)
  have st: "clean_step r stk n = stk @ [n]" for r stk
    using p by (simp add: clean_step_def plain_def)
  show ?thesis using False p
    by (simp add: Join_def Clean_def dest_prefix_def rooted_append s st join_slash_snoc Let_def plain_def)
qed

lemma Join_inj: "plain a \<Longrightarrow> plain b \<Longrightarrow> Join d a = Join d b \<Longrightarrow> a = b"
  by (simp add: Join_plain)

lemma plain_names: "plain ''LICENSE''" "plain ''CONTRIBUTING.md''"
  by (simp_all add: plain_def)

lemma dest_paths_differ: "Join d ''LICENSE'' \<noteq> Join d ''CONTRIBUTING.md''"
  using Join_inj [OF plain_names] by fastforce

lemma rooted_Clean: "rooted p \<Longrightarrow> rooted (Clean p)"
  by (simp add: Clean_def rooted_def Let_def)

lemma rooted_Join: "rooted d \<Longrightarrow> rooted (Join d n)"
proof -
  assume r: "rooted d"
  then have ne: "d \<noteq> []" by (auto simp: rooted_def)
  then have "rooted (d @ CHR ''/'' # n)" using r by (simp add: rooted_append)
  then show ?thesis using ne by (simp add: Join_def rooted_Clean)
qed

lemma Join_tmp_proj:
  "Join ''/tmp/proj'' ''LICENSE'' = ''/tmp/proj/LICENSE''"
  "Join ''/tmp/proj'' ''CONTRIBUTING.md'' = ''/tmp/proj/CONTRIBUTING.md''"
  by (simp_all add: Join_def Clean_def rooted_def clean_step_def)

section \<open>Facts about the file system\<close>

text \<open>
  What a successful \<open>os.WriteFile\<close> changes, and what it leaves alone: the path written
  answers \<open>os.Stat\<close> afterwards, and every path that answered before answers the same.
\<close>

lemma follow_absent: "objects fs p = None \<Longrightarrow> follow fs n p = Inr (p, None)"
  by (cases n) auto

lemma follow_result:
  "follow fs n p = Inr (q, x) \<Longrightarrow> x = objects fs q \<and> (\<forall>t. x \<noteq> Some (Symlink t))"
  by (induction n arbitrary: p) (auto split: option.splits node.splits)

lemma follow_after_write:
  assumes "follow fs n p = Inr (q, x)" and "x = None \<or> (\<exists>c. x = Some (File c))"
    and "objects fs' = (objects fs)(q \<mapsto> File d)"
  shows "follow fs' n p = Inr (q, Some (File d))"
  using assms
proof (induction n arbitrary: p)
  case 0
  then show ?case by (auto split: option.splits node.splits if_splits)
next
  case (Suc n)
  show ?case
  proof (cases "objects fs p")
    case None
    with Suc.prems show ?thesis by auto
  next
    case (Some nd)
    show ?thesis
    proof (cases nd)
      case (Symlink t)
      with Some Suc.prems have f: "follow fs n t = Inr (q, x)" by simp
      from follow_result [OF f] Some Symlink have "p \<noteq> q" by auto
      with Some Symlink Suc.prems(3) Suc.IH [OF f Suc.prems(2) Suc.prems(3)]
      show ?thesis by simp
    qed (use Some Suc.prems in auto)
  qed
qed

lemma follow_other_write:
  assumes "follow fs n p = Inr (q', Some nd)"
    and "objects fs q = None \<or> (\<exists>c. objects fs q = Some (File c))"
    and "objects fs' = (objects fs)(q \<mapsto> File d)"
  shows "follow fs' n p = Inr (q', Some (if q' = q then File d else nd))"
  using assms
proof (induction n arbitrary: p)
  case 0
  then show ?case by (auto split: option.splits node.splits if_splits)
next
  case (Suc n)
  show ?case
  proof (cases "objects fs p")
    case None
    with Suc.prems show ?thesis by auto
  next
    case (Some x)
    show ?thesis
    proof (cases x)
      case (Symlink t)
      with Some Suc.prems have f: "follow fs n t = Inr (q', Some nd)" by simp
      from Some Symlink Suc.prems(2) have "p \<noteq> q" by auto
      with Some Symlink Suc.prems(3) Suc.IH [OF f Suc.prems(2) Suc.prems(3)]
      show ?thesis by simp
    qed (use Some Suc.prems in \<open>auto split: if_splits\<close>)
  qed
qed

lemma os_WriteFile_success:
  assumes "os_WriteFile fs p d = (None, fs')"
  shows "\<exists>q x. follow fs MAXSYMLINKS p = Inr (q, x)
           \<and> (x = None \<or> (\<exists>c. x = Some (File c)))
           \<and> fs' = fs\<lparr>write_calls := write_calls fs @ [(p, d)],
                        objects := (objects fs)(q \<mapsto> File d)\<rparr>
           \<and> search_ok fs p"
proof -
  from assms have s: "search_ok fs p"
    by (auto simp: os_WriteFile_def Let_def split: if_splits)
  from assms s obtain q x where f: "follow fs MAXSYMLINKS p = Inr (q, x)"
    by (auto simp: os_WriteFile_def Let_def split: if_splits sum.splits)
  from follow_result [OF f] have ns: "\<forall>t. x \<noteq> Some (Symlink t)" by blast
  from assms s f have nd: "x \<noteq> Some Dir"
    by (auto simp: os_WriteFile_def Let_def split: if_splits)
  from ns nd have k: "x = None \<or> (\<exists>c. x = Some (File c))"
    by (cases x) (auto, metis node.exhaust)
  from assms s f k
  have "fs' = fs\<lparr>write_calls := write_calls fs @ [(p, d)], objects := (objects fs)(q \<mapsto> File d)\<rparr>"
    by (auto simp: os_WriteFile_def Let_def split: if_splits)
  with f k s show ?thesis by blast
qed

lemma stat_after_write:
  assumes "os_WriteFile fs p d = (None, fs')"
  shows "os_Stat fs' p = Inr \<lparr>IsDir = False\<rparr>"
proof -
  from os_WriteFile_success [OF assms] obtain q x where f: "follow fs MAXSYMLINKS p = Inr (q, x)"
    and k: "x = None \<or> (\<exists>c. x = Some (File c))"
    and e: "fs' = fs\<lparr>write_calls := write_calls fs @ [(p, d)], objects := (objects fs)(q \<mapsto> File d)\<rparr>"
    and s: "search_ok fs p"
    by blast
  have "follow fs' MAXSYMLINKS p = Inr (q, Some (File d))"
    by (rule follow_after_write [OF f k]) (simp add: e)
  with s e show ?thesis by (simp add: os_Stat_def)
qed

lemma stat_preserved_by_write:
  assumes "os_WriteFile fs p d = (None, fs')" and "os_Stat fs p' = Inr info"
  shows "os_Stat fs' p' = Inr info"
proof -
  from os_WriteFile_success [OF assms(1)] obtain q x where f: "follow fs MAXSYMLINKS p = Inr (q, x)"
    and k: "x = None \<or> (\<exists>c. x = Some (File c))"
    and e: "fs' = fs\<lparr>write_calls := write_calls fs @ [(p, d)], objects := (objects fs)(q \<mapsto> File d)\<rparr>"
    and s: "search_ok fs p"
    by blast
  from follow_result [OF f] k
  have kq: "objects fs q = None \<or> (\<exists>c. objects fs q = Some (File c))" by auto
  from assms(2) have s': "search_ok fs p'"
    by (auto simp: os_Stat_def split: if_splits)
  from assms(2) s' obtain q' nd where f': "follow fs MAXSYMLINKS p' = Inr (q', Some nd)"
    by (auto simp: os_Stat_def split: if_splits sum.splits option.splits)
  have o: "objects fs' = (objects fs)(q \<mapsto> File d)" by (simp add: e)
  note n = follow_other_write [OF f' kq o]
  from follow_result [OF f'] have oq': "objects fs q' = Some nd" by auto
  show ?thesis
  proof (cases "q' = q")
    case True
    with kq oq' obtain c where "nd = File c" by auto
    with assms(2) s' f' n True e show ?thesis by (simp add: os_Stat_def)
  next
    case False
    with assms(2) s' f' n e show ?thesis by (simp add: os_Stat_def)
  qed
qed

lemma stat_absent:
  "objects fs p = None \<Longrightarrow> \<exists>e. os_Stat fs p = Inl e"
  by (simp add: os_Stat_def follow_absent)

lemma write_absent:
  "objects fs p = None \<Longrightarrow> search_ok fs p \<Longrightarrow> write_ok fs p \<Longrightarrow>
   os_WriteFile fs p d =
     (None, fs\<lparr>write_calls := write_calls fs @ [(p, d)], objects := (objects fs)(p \<mapsto> File d)\<rparr>)"
  by (simp add: os_WriteFile_def follow_absent Let_def)

lemma os_WriteFile_log:
  "write_calls (snd (os_WriteFile fs p d)) = write_calls fs @ [(p, d)]"
  by (auto simp: os_WriteFile_def Let_def split: sum.splits option.splits node.splits prod.splits)

lemma follow_numeral:
  "follow fs (numeral k) p =
     (case objects fs p of Some (Symlink t) \<Rightarrow> follow fs (pred_numeral k) t
      | other \<Rightarrow> Inr (p, other))"
  by (simp add: numeral_eq_Suc)

lemma follow_MAXSYMLINKS:
  "follow fs MAXSYMLINKS p =
     (case objects fs p of Some (Symlink t) \<Rightarrow> follow fs 39 t | other \<Rightarrow> Inr (p, other))"
  by (simp add: MAXSYMLINKS_def follow_numeral split: option.splits node.splits)

lemmas eval_run = writeFiles_def embeddedFiles_def os_Stat_def os_WriteFile_def
  follow_MAXSYMLINKS follow_numeral Let_def Join_tmp_proj

section \<open>The loop of \<open>writeFiles\<close>\<close>

text \<open>
  A run of entries whose destinations are free and can be created is written in order; the
  loop then goes on with the remaining entries. The log of write calls only grows, and an
  entry whose \<open>os.Stat\<close> fails is handed to \<open>os.WriteFile\<close>.
\<close>

lemma writeLoop_prefix:
  assumes "\<forall>e \<in> set pre. creatable fs (Join d (DestName e))"
    and "distinct (map (\<lambda>e. Join d (DestName e)) pre)"
  shows "\<exists>fs'. writeLoop d (pre @ rest) created fs =
                 writeLoop d rest (created @ map (\<lambda>e. Join d (DestName e)) pre) fs'
          \<and> write_calls fs' = write_calls fs @ map (\<lambda>e. (Join d (DestName e), Content e)) pre
          \<and> (\<forall>e \<in> set pre. objects fs' (Join d (DestName e)) = Some (File (Content e)))
          \<and> (\<forall>p. p \<notin> (\<lambda>e. Join d (DestName e)) ` set pre \<longrightarrow> objects fs' p = objects fs p)
          \<and> search_ok fs' = search_ok fs \<and> write_ok fs' = write_ok fs
          \<and> (\<forall>p info. os_Stat fs p = Inr info \<longrightarrow> os_Stat fs' p = Inr info)"
  using assms
proof (induction pre arbitrary: fs created)
  case Nil
  show ?case by (rule exI [of _ fs]) simp
next
  case (Cons e pre)
  let ?p = "Join d (DestName e)"
  let ?fs1 = "fs\<lparr>write_calls := write_calls fs @ [(?p, Content e)],
                 objects := (objects fs)(?p \<mapsto> File (Content e))\<rparr>"
  from Cons.prems(1) have c: "objects fs ?p = None" "search_ok fs ?p" "write_ok fs ?p"
    by (simp_all add: creatable_def)
  from stat_absent [OF c(1)] obtain err where st: "os_Stat fs ?p = Inl err" ..
  have w: "os_WriteFile fs ?p (Content e) = (None, ?fs1)"
    by (rule write_absent [OF c])
  have step: "writeLoop d ((e # pre) @ rest) created fs = writeLoop d (pre @ rest) (created @ [?p]) ?fs1"
    by (simp add: st w Let_def)
  have ne: "Join d (DestName x) \<noteq> ?p" if "x \<in> set pre" for x
  proof
    assume eq: "Join d (DestName x) = ?p"
    from that have "Join d (DestName x) \<in> (\<lambda>e. Join d (DestName e)) ` set pre" by blast
    with eq have "?p \<in> (\<lambda>e. Join d (DestName e)) ` set pre" by simp
    with Cons.prems(2) show False by simp
  qed
  have c1: "\<forall>x \<in> set pre. creatable ?fs1 (Join d (DestName x))"
    using Cons.prems(1) ne by (simp add: creatable_def)
  have d1: "distinct (map (\<lambda>e. Join d (DestName e)) pre)"
    using Cons.prems(2) by simp
  from Cons.IH [OF c1 d1, of "created @ [?p]"] obtain fs' where
    r: "writeLoop d (pre @ rest) (created @ [?p]) ?fs1 =
          writeLoop d rest ((created @ [?p]) @ map (\<lambda>e. Join d (DestName e)) pre) fs'"
    and wc: "write_calls fs' = write_calls ?fs1 @ map (\<lambda>e. (Join d (DestName e), Content e)) pre"
    and ob: "\<forall>x \<in> set pre. objects fs' (Join d (DestName x)) = Some (File (Content x))"
    and fr: "\<forall>p. p \<notin> (\<lambda>e. Join d (DestName e)) ` set pre \<longrightarrow> objects fs' p = objects ?fs1 p"
    and pm: "search_ok fs' = search_ok ?fs1" "write_ok fs' = write_ok ?fs1"
    and sp: "\<forall>p info. os_Stat ?fs1 p = Inr info \<longrightarrow> os_Stat fs' p = Inr info"
    by blast
  have hd_kept: "objects fs' ?p = Some (File (Content e))"
    using fr Cons.prems(2) by auto
  have sp': "\<forall>p info. os_Stat fs p = Inr info \<longrightarrow> os_Stat fs' p = Inr info"
    using sp stat_preserved_by_write [OF w] by blast
  show ?case
    apply (rule exI [of _ fs'])
    using step r wc ob fr pm sp' hd_kept by auto
qed

lemma writeLoop_log:
  "\<exists>ws. write_calls (snd (writeLoop d efs created fs)) = write_calls fs @ ws"
proof (induction efs arbitrary: created fs)
  case Nil
  show ?case by simp
next
  case (Cons ef efs)
  let ?p = "Join d (DestName ef)"
  show ?case
  proof (cases "os_Stat fs ?p")
    case (Inr info)
    then show ?thesis by (simp add: Let_def)
  next
    case (Inl e)
    obtain r fs' where w: "os_WriteFile fs ?p (Content ef) = (r, fs')" by force
    from os_WriteFile_log [of fs ?p "Content ef"] w
    have l: "write_calls fs' = write_calls fs @ [(?p, Content ef)]" by simp
    show ?thesis
    proof (cases r)
      case (Some err)
      with Inl w l show ?thesis by (simp add: Let_def)
    next
      case None
      from Cons.IH [of "created @ [?p]" fs'] obtain ws where
        "write_calls (snd (writeLoop d efs (created @ [?p]) fs')) = write_calls fs' @ ws" ..
      with None Inl w l show ?thesis by (simp add: Let_def)
    qed
  qed
qed

lemma writeLoop_attempt:
  assumes "os_Stat fs (Join d (DestName ef)) = Inl e"
  shows "\<exists>ws. write_calls (snd (writeLoop d (ef # rest) created fs)) =
               write_calls fs @ (Join d (DestName ef), Content ef) # ws"
proof -
  let ?p = "Join d (DestName ef)"
  obtain r fs' where w: "os_WriteFile fs ?p (Content ef) = (r, fs')" by force
  from os_WriteFile_log [of fs ?p "Content ef"] w
  have l: "write_calls fs' = write_calls fs @ [(?p, Content ef)]" by simp
  show ?thesis
  proof (cases r)
    case (Some err)
    with assms w l show ?thesis by (simp add: Let_def)
  next
    case None
    from writeLoop_log [of d rest "created @ [?p]" fs'] obtain ws where
      "write_calls (snd (writeLoop d rest (created @ [?p]) fs')) = write_calls fs' @ ws" ..
    with None assms w l show ?thesis by (simp add: Let_def)
  qed
qed

lemma embedded_dests_distinct:
  "distinct (map (\<lambda>ef. Join d (DestName ef)) (embeddedFiles c1 c2))"
  using dest_paths_differ [of d] by (simp add: embeddedFiles_def)

section \<open>Claims about \<open>writeFiles\<close>\<close>

subsection \<open>The directory check\<close>

text \<open>
  Claim C7. When \<open>os.Stat\<close> of the target path fails, \<open>writeFiles\<close> returns the error
  \<open>checking directory: ...\<close>; when it succeeds on something that is not a directory,
  \<open>writeFiles\<close> returns \<open>not a directory: ...\<close>. In both cases the file system is returned
  as it was, log of write calls included: no write was attempted. In particular a path at
  which nothing exists gives the first error, and a path that names a regular file the
  second.
\<close>

theorem writeFiles_directory_error:
  "(os_Stat fs directory = Inl err \<longrightarrow>
      writeFiles (embeddedFiles c1 c2) directory fs = (Inl (CheckingDirectory err), fs))
   \<and> (os_Stat fs directory = Inr info \<and> \<not> IsDir info \<longrightarrow>
      writeFiles (embeddedFiles c1 c2) directory fs = (Inl (NotADirectory directory), fs))
   \<and> (objects fs directory = None \<longrightarrow>
      (\<exists>e. writeFiles (embeddedFiles c1 c2) directory fs = (Inl (CheckingDirectory e), fs)))
   \<and> ((\<exists>c. objects fs directory = Some (File c)) \<and> search_ok fs directory \<longrightarrow>
      writeFiles (embeddedFiles c1 c2) directory fs = (Inl (NotADirectory directory), fs))"
  by (auto simp: writeFiles_def os_Stat_def follow_MAXSYMLINKS)

text \<open>
  The two cases at concrete inputs: a path that does not exist, and a path that names a regular
  file.
\<close>

theorem writeFiles_directory_error_witness:
  "os_Stat empty_dir ''/tmp/nowhere'' = Inl \<lparr>Op = ''stat'', Path = ''/tmp/nowhere'', Err = ENOENT\<rparr>
   \<and> writeFiles (embeddedFiles lic contrib) ''/tmp/nowhere'' empty_dir =
       (Inl (CheckingDirectory \<lparr>Op = ''stat'', Path = ''/tmp/nowhere'', Err = ENOENT\<rparr>), empty_dir)
   \<and> os_Stat populated_dir ''/tmp/proj/CONTRIBUTING.md'' = Inr \<lparr>IsDir = False\<rparr>
   \<and> writeFiles (embeddedFiles lic contrib) ''/tmp/proj/CONTRIBUTING.md'' populated_dir =
       (Inl (NotADirectory ''/tmp/proj/CONTRIBUTING.md''), populated_dir)"
proof -
  have a: "os_Stat empty_dir ''/tmp/nowhere'' = Inl \<lparr>Op = ''stat'', Path = ''/tmp/nowhere'', Err = ENOENT\<rparr>"
    by (simp add: os_Stat_def follow_MAXSYMLINKS follow_numeral empty_dir_def)
  have b: "os_Stat populated_dir ''/tmp/proj/CONTRIBUTING.md'' = Inr \<lparr>IsDir = False\<rparr>"
    by (simp add: os_Stat_def follow_MAXSYMLINKS follow_numeral populated_dir_def)
  show ?thesis
    using a b
      writeFiles_directory_error [of empty_dir "''/tmp/nowhere''" _ lic contrib]
      writeFiles_directory_error [of populated_dir "''/tmp/proj/CONTRIBUTING.md''" _ lic contrib "\<lparr>IsDir = False\<rparr>"]
    by simp
qed

subsection \<open>The existence check of one entry\<close>

text \<open>
  Claim C10. In the loop of \<open>writeFiles\<close>, the iteration for an entry ends with the conflict
  error, the file system untouched, exactly when \<open>os.Stat\<close> of the destination path succeeds.
  When that \<open>os.Stat\<close> returns an error, whichever it is, the next thing the iteration does
  is call \<open>os.WriteFile\<close> with the destination path and the entry's content. So an entry
  that exists but does not answer \<open>os.Stat\<close> is no conflict: a destination that is a
  dangling symbolic link is written through, and the content lands at the link's target.
\<close>

theorem writeLoop_conflict_iff_stat:
  "((\<exists>info. os_Stat fs (Join d (DestName ef)) = Inr info) \<longleftrightarrow>
      writeLoop d (ef # rest) created fs = (Inl (AlreadyExists (Join d (DestName ef))), fs))
   \<and> ((\<exists>e. os_Stat fs (Join d (DestName ef)) = Inl e) \<longrightarrow>
      take (Suc (length (write_calls fs))) (write_calls (snd (writeLoop d (ef # rest) created fs)))
        = write_calls fs @ [(Join d (DestName ef), Content ef)])
   \<and> (objects fs (Join d (DestName ef)) = Some (Symlink t) \<and> objects fs t = None
        \<and> search_ok fs (Join d (DestName ef)) \<and> write_ok fs t \<longrightarrow>
      writeLoop d [ef] created fs =
        (Inr (created @ [Join d (DestName ef)]),
         fs\<lparr>write_calls := write_calls fs @ [(Join d (DestName ef), Content ef)],
            objects := (objects fs)(t \<mapsto> File (Content ef))\<rparr>))"
proof (intro conjI impI)
  let ?p = "Join d (DestName ef)"
  show "(\<exists>info. os_Stat fs ?p = Inr info) \<longleftrightarrow>
      writeLoop d (ef # rest) created fs = (Inl (AlreadyExists ?p), fs)"
  proof
    assume "\<exists>info. os_Stat fs ?p = Inr info"
    then show "writeLoop d (ef # rest) created fs = (Inl (AlreadyExists ?p), fs)"
      by (auto simp: Let_def)
  next
    assume r: "writeLoop d (ef # rest) created fs = (Inl (AlreadyExists ?p), fs)"
    show "\<exists>info. os_Stat fs ?p = Inr info"
    proof (cases "os_Stat fs ?p")
      case (Inl e)
      from writeLoop_attempt [OF Inl, of rest created] r show ?thesis by simp
    next
      case (Inr info)
      then show ?thesis by blast
    qed
  qed
next
  assume "\<exists>e. os_Stat fs (Join d (DestName ef)) = Inl e"
  then obtain e where "os_Stat fs (Join d (DestName ef)) = Inl e" ..
  from writeLoop_attempt [OF this, of rest created]
  show "take (Suc (length (write_calls fs))) (write_calls (snd (writeLoop d (ef # rest) created fs)))
        = write_calls fs @ [(Join d (DestName ef), Content ef)]"
    by auto
next
  assume a: "objects fs (Join d (DestName ef)) = Some (Symlink t) \<and> objects fs t = None
        \<and> search_ok fs (Join d (DestName ef)) \<and> write_ok fs t"
  then have f: "follow fs MAXSYMLINKS (Join d (DestName ef)) = Inr (t, None)"
    by (simp add: follow_MAXSYMLINKS follow_numeral follow_absent)
  with a show "writeLoop d [ef] created fs =
        (Inr (created @ [Join d (DestName ef)]),
         fs\<lparr>write_calls := write_calls fs @ [(Join d (DestName ef), Content ef)],
            objects := (objects fs)(t \<mapsto> File (Content ef))\<rparr>)"
    by (simp add: os_Stat_def os_WriteFile_def Let_def)
qed

text \<open>
  The directory where \<open>LICENSE\<close> is a dangling link: \<open>os.Stat\<close> fails, there is no conflict,
  the first write call is the one for \<open>LICENSE\<close>, and the content is stored at the target.
  And the directory whose entries may not be looked up: \<open>os.Stat\<close> fails with a permission
  error although \<open>LICENSE\<close> exists, the write is attempted, and the error returned is that of
  the write, not the conflict.
\<close>

theorem writeLoop_conflict_iff_stat_witness:
  "(\<exists>e. os_Stat dangling_dir ''/tmp/proj/LICENSE'' = Inl e)
   \<and> writeLoop ''/tmp/proj'' (embeddedFiles lic contrib) [] dangling_dir \<noteq>
       (Inl (AlreadyExists ''/tmp/proj/LICENSE''), dangling_dir)
   \<and> take 1 (write_calls (snd (writeLoop ''/tmp/proj'' (embeddedFiles lic contrib) [] dangling_dir)))
       = [(''/tmp/proj/LICENSE'', lic)]
   \<and> objects (snd (writeLoop ''/tmp/proj'' [\<lparr>Content = lic, DestName = ''LICENSE''\<rparr>] [] dangling_dir))
        ''/tmp/gone'' = Some (File lic)
   \<and> os_Stat locked_dir ''/tmp/proj/LICENSE'' =
        Inl \<lparr>Op = ''stat'', Path = ''/tmp/proj/LICENSE'', Err = EACCES\<rparr>
   \<and> writeLoop ''/tmp/proj'' (embeddedFiles lic contrib) [] locked_dir \<noteq>
       (Inl (AlreadyExists ''/tmp/proj/LICENSE''), locked_dir)
   \<and> take 1 (write_calls (snd (writeLoop ''/tmp/proj'' (embeddedFiles lic contrib) [] locked_dir)))
       = [(''/tmp/proj/LICENSE'', lic)]
   \<and> fst (writeLoop ''/tmp/proj'' (embeddedFiles lic contrib) [] locked_dir) =
        Inl (Writing ''LICENSE'' \<lparr>Op = ''open'', Path = ''/tmp/proj/LICENSE'', Err = EACCES\<rparr>)"
proof -
  let ?e1 = "\<lparr>Content = lic, DestName = ''LICENSE''\<rparr>"
  let ?e2 = "\<lparr>Content = contrib, DestName = ''CONTRIBUTING.md''\<rparr>"
  have h: "os_Stat dangling_dir (Join ''/tmp/proj'' (DestName ?e1)) =
             Inl \<lparr>Op = ''stat'', Path = ''/tmp/proj/LICENSE'', Err = ENOENT\<rparr>"
    by (simp add: eval_run dangling_dir_def)
  have k: "objects dangling_dir (Join ''/tmp/proj'' (DestName ?e1)) = Some (Symlink ''/tmp/gone'')
        \<and> objects dangling_dir ''/tmp/gone'' = None
        \<and> search_ok dangling_dir (Join ''/tmp/proj'' (DestName ?e1)) \<and> write_ok dangling_dir ''/tmp/gone''"
    by (simp add: Join_tmp_proj dangling_dir_def)
  have h': "os_Stat locked_dir (Join ''/tmp/proj'' (DestName ?e1)) =
             Inl \<lparr>Op = ''stat'', Path = ''/tmp/proj/LICENSE'', Err = EACCES\<rparr>"
    by (simp add: eval_run locked_dir_def)
  have w': "fst (writeLoop ''/tmp/proj'' (embeddedFiles lic contrib) [] locked_dir) =
        Inl (Writing ''LICENSE'' \<lparr>Op = ''open'', Path = ''/tmp/proj/LICENSE'', Err = EACCES\<rparr>)"
    by (simp add: eval_run locked_dir_def)
  note t = writeLoop_conflict_iff_stat [of dangling_dir "''/tmp/proj''" ?e1 "[?e2]" "[]" "''/tmp/gone''"]
  note t' = writeLoop_conflict_iff_stat [of locked_dir "''/tmp/proj''" ?e1 "[?e2]" "[]" "''/tmp/gone''"]
  from t h k have a: "(\<exists>e. os_Stat dangling_dir ''/tmp/proj/LICENSE'' = Inl e)
   \<and> writeLoop ''/tmp/proj'' (embeddedFiles lic contrib) [] dangling_dir \<noteq>
       (Inl (AlreadyExists ''/tmp/proj/LICENSE''), dangling_dir)
   \<and> take 1 (write_calls (snd (writeLoop ''/tmp/proj'' (embeddedFiles lic contrib) [] dangling_dir)))
       = [(''/tmp/proj/LICENSE'', lic)]
   \<and> objects (snd (writeLoop ''/tmp/proj'' [\<lparr>Content = lic, DestName = ''LICENSE''\<rparr>] [] dangling_dir))
        ''/tmp/gone'' = Some (File lic)"
    by (simp add: embeddedFiles_def Join_tmp_proj dangling_dir_def)
  from t' h' have b: "writeLoop ''/tmp/proj'' (embeddedFiles lic contrib) [] locked_dir \<noteq>
       (Inl (AlreadyExists ''/tmp/proj/LICENSE''), locked_dir)
   \<and> take 1 (write_calls (snd (writeLoop ''/tmp/proj'' (embeddedFiles lic contrib) [] locked_dir)))
       = [(''/tmp/proj/LICENSE'', lic)]"
    by (simp add: embeddedFiles_def Join_tmp_proj locked_dir_def)
  from a b h' w' show ?thesis by (simp add: Join_tmp_proj)
qed

subsection \<open>Success\<close>

text \<open>
  Claim C1, as stated, fails: the directory may exist, be a directory and hold none of the
  destination names, and \<open>os.WriteFile\<close> may still fail. In a directory without write
  permission \<open>writeFiles\<close> returns \<open>writing LICENSE: open /tmp/proj/LICENSE: permission denied\<close>.
\<close>

theorem writeFiles_success_counterexample:
  "os_Stat readonly_dir ''/tmp/proj'' = Inr \<lparr>IsDir = True\<rparr>
   \<and> objects readonly_dir (Join ''/tmp/proj'' ''LICENSE'') = None
   \<and> objects readonly_dir (Join ''/tmp/proj'' ''CONTRIBUTING.md'') = None
   \<and> fst (writeFiles (embeddedFiles lic contrib) ''/tmp/proj'' readonly_dir) =
        Inl (Writing ''LICENSE'' \<lparr>Op = ''open'', Path = ''/tmp/proj/LICENSE'', Err = EACCES\<rparr>)"
  by (simp add: eval_run readonly_dir_def)

text \<open>
  Claim C1, amended. When the target directory exists and is a directory, no destination path
  of the template set holds an entry, and the process may create a file at each of them, then
  \<open>writeFiles\<close> succeeds. The result names the directory; \<open>FilesCreated\<close> has the length of
  the template set and is, in template order, \<open>Join directory DestName\<close> of every entry
  (rooted paths when the directory is rooted). Afterwards every destination holds a regular
  file with the entry's content, nothing else has changed, and the write calls made are
  exactly those for the entries, in order.
\<close>

theorem writeFiles_success:
  assumes "os_Stat fs directory = Inr info" and "IsDir info"
    and "\<forall>ef \<in> set (embeddedFiles c1 c2).
           objects fs (Join directory (DestName ef)) = None
           \<and> search_ok fs (Join directory (DestName ef))
           \<and> write_ok fs (Join directory (DestName ef))"
  shows "\<exists>r fs'. writeFiles (embeddedFiles c1 c2) directory fs = (Inr r, fs')
      \<and> Directory r = directory
      \<and> length (FilesCreated r) = length (embeddedFiles c1 c2)
      \<and> FilesCreated r = map (\<lambda>ef. Join directory (DestName ef)) (embeddedFiles c1 c2)
      \<and> (\<forall>ef \<in> set (embeddedFiles c1 c2).
            objects fs' (Join directory (DestName ef)) = Some (File (Content ef)))
      \<and> (\<forall>p. p \<notin> (\<lambda>ef. Join directory (DestName ef)) ` set (embeddedFiles c1 c2)
            \<longrightarrow> objects fs' p = objects fs p)
      \<and> write_calls fs' = write_calls fs @
            map (\<lambda>ef. (Join directory (DestName ef), Content ef)) (embeddedFiles c1 c2)
      \<and> (rooted directory \<longrightarrow> (\<forall>p \<in> set (FilesCreated r). rooted p))"
proof -
  let ?E = "embeddedFiles c1 c2"
  from assms(3) have c: "\<forall>e \<in> set ?E. creatable fs (Join directory (DestName e))"
    by (simp add: creatable_def)
  from writeLoop_prefix [OF c embedded_dests_distinct, of "[]" "[]"] obtain fs' where
    r: "writeLoop directory ?E [] fs =
          (Inr (map (\<lambda>e. Join directory (DestName e)) ?E), fs')"
    and wc: "write_calls fs' = write_calls fs @ map (\<lambda>e. (Join directory (DestName e), Content e)) ?E"
    and ob: "\<forall>e \<in> set ?E. objects fs' (Join directory (DestName e)) = Some (File (Content e))"
    and fr: "\<forall>p. p \<notin> (\<lambda>e. Join directory (DestName e)) ` set ?E \<longrightarrow> objects fs' p = objects fs p"
    by auto
  let ?r = "\<lparr>Directory = directory, FilesCreated = map (\<lambda>e. Join directory (DestName e)) ?E\<rparr>"
  have w: "writeFiles ?E directory fs = (Inr ?r, fs')"
    using assms(1,2) r by (simp add: writeFiles_def)
  have ro: "rooted directory \<longrightarrow> (\<forall>p \<in> set (FilesCreated ?r). rooted p)"
    by (auto simp: rooted_Join)
  show ?thesis
    apply (rule exI [of _ ?r])
    apply (rule exI [of _ fs'])
    using w wc ob fr ro by simp
qed

text \<open>The empty directory \<open>/tmp/proj\<close>.\<close>

theorem writeFiles_success_witness:
  "os_Stat empty_dir ''/tmp/proj'' = Inr \<lparr>IsDir = True\<rparr>
   \<and> (\<exists>r fs'. writeFiles (embeddedFiles lic contrib) ''/tmp/proj'' empty_dir = (Inr r, fs')
        \<and> FilesCreated r = [''/tmp/proj/LICENSE'', ''/tmp/proj/CONTRIBUTING.md'']
        \<and> objects fs' ''/tmp/proj/LICENSE'' = Some (File lic)
        \<and> objects fs' ''/tmp/proj/CONTRIBUTING.md'' = Some (File contrib)
        \<and> write_calls fs' = [(''/tmp/proj/LICENSE'', lic), (''/tmp/proj/CONTRIBUTING.md'', contrib)])"
proof -
  have h1: "os_Stat empty_dir ''/tmp/proj'' = Inr \<lparr>IsDir = True\<rparr>"
    by (simp add: eval_run empty_dir_def)
  have h2: "IsDir \<lparr>IsDir = True\<rparr>" by simp
  have h3: "\<forall>ef \<in> set (embeddedFiles lic contrib).
           objects empty_dir (Join ''/tmp/proj'' (DestName ef)) = None
           \<and> search_ok empty_dir (Join ''/tmp/proj'' (DestName ef))
           \<and> write_ok empty_dir (Join ''/tmp/proj'' (DestName ef))"
    by (simp add: embeddedFiles_def Join_tmp_proj empty_dir_def)
  from writeFiles_success [OF h1 h2 h3] obtain r fs' where
    "writeFiles (embeddedFiles lic contrib) ''/tmp/proj'' empty_dir = (Inr r, fs')"
    "FilesCreated r = map (\<lambda>ef. Join ''/tmp/proj'' (DestName ef)) (embeddedFiles lic contrib)"
    "\<forall>ef \<in> set (embeddedFiles lic contrib).
            objects fs' (Join ''/tmp/proj'' (DestName ef)) = Some (File (Content ef))"
    "write_calls fs' = write_calls empty_dir @
            map (\<lambda>ef. (Join ''/tmp/proj'' (DestName ef), Content ef)) (embeddedFiles lic contrib)"
    by blast
  then have "writeFiles (embeddedFiles lic contrib) ''/tmp/proj'' empty_dir = (Inr r, fs')
        \<and> FilesCreated r = [''/tmp/proj/LICENSE'', ''/tmp/proj/CONTRIBUTING.md'']
        \<and> objects fs' ''/tmp/proj/LICENSE'' = Some (File lic)
        \<and> objects fs' ''/tmp/proj/CONTRIBUTING.md'' = Some (File contrib)
        \<and> write_calls fs' = [(''/tmp/proj/LICENSE'', lic), (''/tmp/proj/CONTRIBUTING.md'', contrib)]"
    by (simp add: embeddedFiles_def Join_tmp_proj empty_dir_def)
  with h1 show ?thesis by blast
qed

subsection \<open>Conflict\<close>

text \<open>
  Claim C2, as stated, fails in two ways. An entry "of any type" need not answer \<open>os.Stat\<close>:
  with \<open>LICENSE\<close> a dangling symbolic link there is no conflict and \<open>writeFiles\<close> succeeds.
  And the entries before the conflicting one need not be written: in a directory without write
  permission that holds \<open>CONTRIBUTING.md\<close>, the error is the failed write of \<open>LICENSE\<close>, not
  a conflict.
\<close>

theorem writeFiles_conflict_counterexample:
  "os_Stat dangling_dir ''/tmp/proj'' = Inr \<lparr>IsDir = True\<rparr>
   \<and> objects dangling_dir (Join ''/tmp/proj'' ''LICENSE'') = Some (Symlink ''/tmp/gone'')
   \<and> fst (writeFiles (embeddedFiles lic contrib) ''/tmp/proj'' dangling_dir) =
        Inr \<lparr>Directory = ''/tmp/proj'',
             FilesCreated = [''/tmp/proj/LICENSE'', ''/tmp/proj/CONTRIBUTING.md'']\<rparr>
   \<and> os_Stat readonly_populated_dir ''/tmp/proj'' = Inr \<lparr>IsDir = True\<rparr>
   \<and> objects readonly_populated_dir (Join ''/tmp/proj'' ''CONTRIBUTING.md'') = Some (File old)
   \<and> fst (writeFiles (embeddedFiles lic contrib) ''/tmp/proj'' readonly_populated_dir) =
        Inl (Writing ''LICENSE'' \<lparr>Op = ''open'', Path = ''/tmp/proj/LICENSE'', Err = EACCES\<rparr>)"
  by (simp add: eval_run dangling_dir_def readonly_populated_dir_def)

text \<open>
  Claim C2, amended. Let the target directory exist and be a directory, and split the template
  set at its first entry \<open>ef\<close> whose destination path is occupied: the destinations of the
  entries before it are free. If \<open>os.Stat\<close> succeeds on the destination of \<open>ef\<close> and the
  process may create the files before it, then \<open>writeFiles\<close> fails with the conflict error
  that names the destination of \<open>ef\<close>. The entries before \<open>ef\<close> have been written and stay
  written, with their content; the destinations of \<open>ef\<close> and of the entries after it are as
  they were, as is every other path; the only write calls made are those for the entries
  before \<open>ef\<close>.
\<close>

theorem writeFiles_conflict:
  assumes "os_Stat fs directory = Inr info" and "IsDir info"
    and "embeddedFiles c1 c2 = pre @ ef # post"
    and "\<forall>e \<in> set pre.
           objects fs (Join directory (DestName e)) = None
           \<and> search_ok fs (Join directory (DestName e))
           \<and> write_ok fs (Join directory (DestName e))"
    and "os_Stat fs (Join directory (DestName ef)) = Inr info'"
  shows "\<exists>fs'. writeFiles (embeddedFiles c1 c2) directory fs =
                 (Inl (AlreadyExists (Join directory (DestName ef))), fs')
      \<and> (\<forall>e \<in> set pre. objects fs' (Join directory (DestName e)) = Some (File (Content e)))
      \<and> (\<forall>e \<in> set (ef # post).
            objects fs' (Join directory (DestName e)) = objects fs (Join directory (DestName e)))
      \<and> (\<forall>p. p \<notin> (\<lambda>e. Join directory (DestName e)) ` set pre \<longrightarrow> objects fs' p = objects fs p)
      \<and> write_calls fs' = write_calls fs @ map (\<lambda>e. (Join directory (DestName e), Content e)) pre"
proof -
  let ?f = "\<lambda>e. Join directory (DestName e)"
  from embedded_dests_distinct [of directory c1 c2] assms(3)
  have dall: "distinct (map ?f (pre @ ef # post))" by simp
  then have dpre: "distinct (map ?f pre)" by simp
  from dall have later: "?f e \<notin> ?f ` set pre" if "e \<in> set (ef # post)" for e
    using that by auto
  from assms(4) have c: "\<forall>e \<in> set pre. creatable fs (?f e)"
    by (simp add: creatable_def)
  from writeLoop_prefix [OF c dpre, of "ef # post" "[]"] obtain fs' where
    r: "writeLoop directory (pre @ ef # post) [] fs =
          writeLoop directory (ef # post) ([] @ map ?f pre) fs'"
    and wc: "write_calls fs' = write_calls fs @ map (\<lambda>e. (?f e, Content e)) pre"
    and ob: "\<forall>e \<in> set pre. objects fs' (?f e) = Some (File (Content e))"
    and fr: "\<forall>p. p \<notin> ?f ` set pre \<longrightarrow> objects fs' p = objects fs p"
    and sp: "\<forall>p info. os_Stat fs p = Inr info \<longrightarrow> os_Stat fs' p = Inr info"
    by blast
  from sp assms(5) have "os_Stat fs' (?f ef) = Inr info'" by blast
  with r have "writeLoop directory (pre @ ef # post) [] fs = (Inl (AlreadyExists (?f ef)), fs')"
    by (simp add: Let_def)
  with assms(1,2,3) have w: "writeFiles (embeddedFiles c1 c2) directory fs =
                 (Inl (AlreadyExists (?f ef)), fs')"
    by (simp add: writeFiles_def)
  have la: "\<forall>e \<in> set (ef # post). objects fs' (?f e) = objects fs (?f e)"
    using later fr by blast
  show ?thesis
    apply (rule exI [of _ fs'])
    using w wc ob fr la by simp
qed

text \<open>The directory that holds \<open>CONTRIBUTING.md\<close>: \<open>LICENSE\<close> is written, then the conflict.\<close>

theorem writeFiles_conflict_witness:
  "os_Stat populated_dir ''/tmp/proj'' = Inr \<lparr>IsDir = True\<rparr>
   \<and> os_Stat populated_dir ''/tmp/proj/CONTRIBUTING.md'' = Inr \<lparr>IsDir = False\<rparr>
   \<and> (\<exists>fs'. writeFiles (embeddedFiles lic contrib) ''/tmp/proj'' populated_dir =
                 (Inl (AlreadyExists ''/tmp/proj/CONTRIBUTING.md''), fs')
        \<and> objects fs' ''/tmp/proj/LICENSE'' = Some (File lic)
        \<and> objects fs' ''/tmp/proj/CONTRIBUTING.md'' = Some (File old)
        \<and> write_calls fs' = [(''/tmp/proj/LICENSE'', lic)])"
proof -
  let ?e1 = "\<lparr>Content = lic, DestName = ''LICENSE''\<rparr>"
  let ?e2 = "\<lparr>Content = contrib, DestName = ''CONTRIBUTING.md''\<rparr>"
  have h1: "os_Stat populated_dir ''/tmp/proj'' = Inr \<lparr>IsDir = True\<rparr>"
    by (simp add: eval_run populated_dir_def)
  have h2: "IsDir \<lparr>IsDir = True\<rparr>" by simp
  have h3: "embeddedFiles lic contrib = [?e1] @ ?e2 # []"
    by (simp add: embeddedFiles_def)
  have h4: "\<forall>e \<in> set [?e1].
           objects populated_dir (Join ''/tmp/proj'' (DestName e)) = None
           \<and> search_ok populated_dir (Join ''/tmp/proj'' (DestName e))
           \<and> write_ok populated_dir (Join ''/tmp/proj'' (DestName e))"
    by (simp add: Join_tmp_proj populated_dir_def)
  have h5: "os_Stat populated_dir (Join ''/tmp/proj'' (DestName ?e2)) = Inr \<lparr>IsDir = False\<rparr>"
    by (simp add: eval_run populated_dir_def)
  from writeFiles_conflict [OF h1 h2 h3 h4 h5] obtain fs' where
    "writeFiles (embeddedFiles lic contrib) ''/tmp/proj'' populated_dir =
                 (Inl (AlreadyExists (Join ''/tmp/proj'' (DestName ?e2))), fs')"
    "\<forall>e \<in> set [?e1]. objects fs' (Join ''/tmp/proj'' (DestName e)) = Some (File (Content e))"
    "\<forall>e \<in> set (?e2 # []).
            objects fs' (Join ''/tmp/proj'' (DestName e)) = objects populated_dir (Join ''/tmp/proj'' (DestName e))"
    "write_calls fs' = write_calls populated_dir @ map (\<lambda>e. (Join ''/tmp/proj'' (DestName e), Content e)) [?e1]"
    by blast
  then have "writeFiles (embeddedFiles lic contrib) ''/tmp/proj'' populated_dir =
                 (Inl (AlreadyExists ''/tmp/proj/CONTRIBUTING.md''), fs')
        \<and> objects fs' ''/tmp/proj/LICENSE'' = Some (File lic)
        \<and> objects fs' ''/tmp/proj/CONTRIBUTING.md'' = Some (File old)
        \<and> write_calls fs' = [(''/tmp/proj/LICENSE'', lic)]"
    by (simp add: Join_tmp_proj populated_dir_def)
  with h1 h5 show ?thesis by (auto simp: Join_tmp_proj)
qed

subsection \<open>No rollback\<close>

text \<open>
  Claim C3, as stated, fails: \<open>writeFiles\<close> has no rollback. In the directory that holds
  \<open>CONTRIBUTING.md\<close> it returns the conflict error, and \<open>LICENSE\<close>, which was not there
  before, is there afterwards.
\<close>

theorem writeFiles_all_or_nothing_counterexample:
  "fst (writeFiles (embeddedFiles lic contrib) ''/tmp/proj'' populated_dir) =
      Inl (AlreadyExists ''/tmp/proj/CONTRIBUTING.md'')
   \<and> objects populated_dir ''/tmp/proj/LICENSE'' = None
   \<and> objects (snd (writeFiles (embeddedFiles lic contrib) ''/tmp/proj'' populated_dir))
        ''/tmp/proj/LICENSE'' = Some (File lic)"
  by (simp add: eval_run populated_dir_def)

text \<open>
  Claim C3, amended. When \<open>writeFiles\<close> returns one of the two directory errors, or the
  conflict error for the first entry of the template set, the file system is as it was. When
  it returns the conflict error for the second entry, the file system is the one the
  successful write of the first entry has left.
\<close>

theorem writeFiles_error_unchanged:
  assumes "writeFiles (embeddedFiles c1 c2) directory fs = (Inl e, fs')"
  shows "((\<exists>pe. e = CheckingDirectory pe) \<or> (\<exists>x. e = NotADirectory x)
            \<or> e = AlreadyExists (Join directory ''LICENSE'') \<longrightarrow> fs' = fs)
       \<and> (e = AlreadyExists (Join directory ''CONTRIBUTING.md'') \<longrightarrow>
            os_WriteFile fs (Join directory ''LICENSE'') c1 = (None, fs'))"
  using assms dest_paths_differ [of directory]
  by (auto simp: writeFiles_def embeddedFiles_def Let_def
      split: sum.splits if_splits prod.splits option.splits)

text \<open>The directory that holds \<open>LICENSE\<close>, and the one that holds \<open>CONTRIBUTING.md\<close>.\<close>

theorem writeFiles_error_unchanged_witness:
  "writeFiles (embeddedFiles lic contrib) ''/tmp/proj'' licensed_dir =
       (Inl (AlreadyExists ''/tmp/proj/LICENSE''), licensed_dir)
   \<and> (\<exists>fs'. writeFiles (embeddedFiles lic contrib) ''/tmp/proj'' populated_dir =
         (Inl (AlreadyExists ''/tmp/proj/CONTRIBUTING.md''), fs')
        \<and> os_WriteFile populated_dir ''/tmp/proj/LICENSE'' lic = (None, fs'))"
proof -
  obtain fs1 where h1: "writeFiles (embeddedFiles lic contrib) ''/tmp/proj'' licensed_dir =
       (Inl (AlreadyExists ''/tmp/proj/LICENSE''), fs1)"
    by (simp add: eval_run licensed_dir_def)
  obtain fs2 where h2: "writeFiles (embeddedFiles lic contrib) ''/tmp/proj'' populated_dir =
       (Inl (AlreadyExists ''/tmp/proj/CONTRIBUTING.md''), fs2)"
    by (simp add: eval_run populated_dir_def)
  from writeFiles_error_unchanged [OF h1] have "fs1 = licensed_dir"
    by (simp add: Join_tmp_proj)
  moreover from writeFiles_error_unchanged [OF h2]
  have "os_WriteFile populated_dir ''/tmp/proj/LICENSE'' lic = (None, fs2)"
    by (simp add: Join_tmp_proj)
  ultimately show ?thesis using h1 h2 by blast
qed

subsection \<open>Calling again after a conflict\<close>

text \<open>
  Claim C8, as stated, fails: the second call need not name the path the first call named. In
  the directory that holds \<open>CONTRIBUTING.md\<close> the first call writes \<open>LICENSE\<close> and fails on
  \<open>CONTRIBUTING.md\<close>; the second call fails on \<open>LICENSE\<close>.
\<close>

theorem writeFiles_retry_counterexample:
  "fst (writeFiles (embeddedFiles lic contrib) ''/tmp/proj'' populated_dir) =
      Inl (AlreadyExists ''/tmp/proj/CONTRIBUTING.md'')
   \<and> fst (writeFiles (embeddedFiles lic contrib) ''/tmp/proj''
            (snd (writeFiles (embeddedFiles lic contrib) ''/tmp/proj'' populated_dir))) =
      Inl (AlreadyExists ''/tmp/proj/LICENSE'')"
  by (simp add: eval_run populated_dir_def)

text \<open>
  Claim C8, amended. When \<open>writeFiles\<close> fails with a conflict, a second call on the file
  system the first call has left fails with a conflict too, changes nothing, and names the
  destination of the first entry of the template set. That is the path of the first call's
  error when the first call failed on the first entry (and then the first call changed
  nothing either); otherwise the first call named the second entry's destination, a
  different path.
\<close>

theorem writeFiles_retry:
  assumes "writeFiles (embeddedFiles c1 c2) directory fs = (Inl (AlreadyExists p), fs1)"
  shows "writeFiles (embeddedFiles c1 c2) directory fs1 =
           (Inl (AlreadyExists (Join directory ''LICENSE'')), fs1)
       \<and> (p = Join directory ''LICENSE'' \<and> fs1 = fs
          \<or> p = Join directory ''CONTRIBUTING.md'' \<and> p \<noteq> Join directory ''LICENSE'')"
proof -
  let ?p1 = "Join directory ''LICENSE''" and ?p2 = "Join directory ''CONTRIBUTING.md''"
  from assms obtain info where di: "os_Stat fs directory = Inr info" "IsDir info"
    by (auto simp: writeFiles_def split: sum.splits if_splits)
  show ?thesis
  proof (cases "os_Stat fs ?p1")
    case (Inr i1)
    with assms di have "p = ?p1" "fs1 = fs"
      by (auto simp: writeFiles_def embeddedFiles_def Let_def)
    with Inr di show ?thesis
      by (simp add: writeFiles_def embeddedFiles_def Let_def)
  next
    case (Inl e1)
    with assms di have w: "os_WriteFile fs ?p1 c1 = (None, fs1)" and p: "p = ?p2"
      by (auto simp: writeFiles_def embeddedFiles_def Let_def
          split: sum.splits if_splits prod.splits option.splits)
    from stat_after_write [OF w] have s1: "os_Stat fs1 ?p1 = Inr \<lparr>IsDir = False\<rparr>" .
    from stat_preserved_by_write [OF w di(1)] have sd: "os_Stat fs1 directory = Inr info" .
    from s1 sd di(2) p dest_paths_differ [of directory] show ?thesis
      by (simp add: writeFiles_def embeddedFiles_def Let_def)
  qed
qed

text \<open>The directory that holds \<open>CONTRIBUTING.md\<close>, called twice.\<close>

theorem writeFiles_retry_witness:
  "\<exists>fs1. writeFiles (embeddedFiles lic contrib) ''/tmp/proj'' populated_dir =
       (Inl (AlreadyExists ''/tmp/proj/CONTRIBUTING.md''), fs1)
     \<and> writeFiles (embeddedFiles lic contrib) ''/tmp/proj'' fs1 =
       (Inl (AlreadyExists ''/tmp/proj/LICENSE''), fs1)"
proof -
  obtain fs1 where h: "writeFiles (embeddedFiles lic contrib) ''/tmp/proj'' populated_dir =
       (Inl (AlreadyExists ''/tmp/proj/CONTRIBUTING.md''), fs1)"
    by (simp add: eval_run populated_dir_def)
  from writeFiles_retry [OF h] have
    "writeFiles (embeddedFiles lic contrib) ''/tmp/proj'' fs1 =
       (Inl (AlreadyExists ''/tmp/proj/LICENSE''), fs1)"
    by (simp add: Join_tmp_proj)
  with h show ?thesis by blast
qed

section \<open>The server: facts about one request\<close>

lemma stdout_sendResponse:
  "stdout (sendResponse i r w) =
     stdout w @ [JSON \<lparr>JSONRPC = ''2.0'', ID = i, Result = r, Error = None\<rparr>]"
  by (simp add: sendResponse_def json_Marshal_def)

lemma stdout_sendError:
  "stdout (sendError i c m w) =
     stdout w @ [JSON \<lparr>JSONRPC = ''2.0'', ID = i, Result = None,
                       Error = Some \<lparr>Code = c, Message = m\<rparr>\<rparr>]"
  by (simp add: sendError_def json_Marshal_def)

lemma stdout_handleToolsCall:
  "\<exists>resp. stdout (handleToolsCall J E req w) = stdout w @ [JSON resp]
     \<and> JSONRPCResponse.ID resp = JSONRPCRequest.ID req
     \<and> (Result resp = None) \<noteq> (Error resp = None)"
  by (auto simp: handleToolsCall_def stdout_sendResponse stdout_sendError json_Marshal_def Let_def
      split: option.splits any_value.splits sum.splits prod.splits)

lemma stdout_handleRequest:
  "\<exists>resp. stdout (handleRequest J E req w) = stdout w @ [JSON resp]
     \<and> JSONRPCResponse.ID resp = JSONRPCRequest.ID req
     \<and> (Result resp = None) \<noteq> (Error resp = None)"
  using stdout_handleToolsCall [of J E req w]
  by (simp add: handleRequest_def handleInitialize_def handleToolsList_def
      stdout_sendResponse stdout_sendError Let_def)

lemma run_lines_append:
  "runMCPServer J E (map LineChan xs @ evs) w =
     runMCPServer J E evs (runMCPServer J E (map LineChan xs) w)"
  by (induction xs arbitrary: w) (auto split: option.splits)

lemma run_one_line:
  assumes "l \<noteq> []"
  shows "\<exists>r. stdout (runMCPServer J E [LineChan l] w) = stdout w @ [JSON r]
     \<and> (case Unmarshal_request J l of
           Some req \<Rightarrow> JSONRPCResponse.ID r = JSONRPCRequest.ID req
         | None \<Rightarrow> r = parse_error_response)
     \<and> (Result r = None) \<noteq> (Error r = None)"
proof (cases "Unmarshal_request J l")
  case None
  with assms show ?thesis
    by (simp add: stdout_sendError parse_error_response_def)
next
  case (Some req)
  with assms stdout_handleRequest [of J E req w] show ?thesis by auto
qed

lemma filter_take_le:
  "length (filter P (take k xs)) \<le> length (filter P xs)"
proof -
  have "length (filter P xs) = length (filter P (take k xs @ drop k xs))" by simp
  also have "\<dots> = length (filter P (take k xs)) + length (filter P (drop k xs))"
    by (simp only: filter_append length_append)
  finally show ?thesis by simp
qed

lemmas eval_lines = sample_json_def tools_list_line_def initialize_line_def unknown_line_def
  malformed_line_def tools_call_line_def tools_call_params_def

section \<open>Claims about the server\<close>

subsection \<open>The id of a response\<close>



subsection \<open>Result or error\<close>

text \<open>
  Claim C9. Every response the server prints has exactly one of \<open>Result\<close> and \<open>Error\<close>
  set. A response printed by \<open>sendResponse\<close> for a result carries that result and no error; a
  response printed by \<open>sendError\<close> carries the error and no result; standard output is
  written nowhere else.
\<close>

theorem response_result_xor_error:
  "(\<exists>rs. stdout (runMCPServer J embedded evs w) = stdout w @ map JSON rs
       \<and> (\<forall>r \<in> set rs. (Result r = None) \<noteq> (Error r = None)))
   \<and> stdout (sendResponse i (Some v) w) =
       stdout w @ [JSON \<lparr>JSONRPC = ''2.0'', ID = i, Result = Some v, Error = None\<rparr>]
   \<and> stdout (sendError i c m w) =
       stdout w @ [JSON \<lparr>JSONRPC = ''2.0'', ID = i, Result = None,
                         Error = Some \<lparr>Code = c, Message = m\<rparr>\<rparr>]"
proof -
  have "\<exists>rs. stdout (runMCPServer J embedded evs w) = stdout w @ map JSON rs
       \<and> (\<forall>r \<in> set rs. (Result r = None) \<noteq> (Error r = None))"
  proof (induction evs arbitrary: w)
    case Nil
    show ?case by (rule exI [of _ "[]"]) simp
  next
    case (Cons ev evs)
    show ?case
    proof (cases ev)
      case (LineChan line)
      show ?thesis
      proof (cases "line = []")
        case True
        with LineChan Cons.IH [of w] show ?thesis by simp
      next
        case False
        from run_one_line [OF False, of J embedded w] obtain r where
          r: "stdout (runMCPServer J embedded [LineChan line] w) = stdout w @ [JSON r]"
          and x: "(Result r = None) \<noteq> (Error r = None)" by blast
        let ?w1 = "runMCPServer J embedded [LineChan line] w"
        have e: "runMCPServer J embedded (ev # evs) w = runMCPServer J embedded evs ?w1"
          using LineChan run_lines_append [of J embedded "[line]" evs w] by simp
        from Cons.IH [of ?w1] obtain rs where
          rs: "stdout (runMCPServer J embedded evs ?w1) = stdout ?w1 @ map JSON rs"
          and xs: "\<forall>r \<in> set rs. (Result r = None) \<noteq> (Error r = None)" by blast
        show ?thesis
          apply (rule exI [of _ "r # rs"])
          using e r rs x xs by simp
      qed
    qed (auto intro: exI [of _ "[]"])
  qed
  then show ?thesis by (simp add: stdout_sendResponse stdout_sendError)
qed

theorem response_result_xor_error_witness:
  "\<exists>rs. stdout (runMCPServer sample_json (embeddedFiles lic contrib)
                 [LineChan tools_list_line, LineChan malformed_line, LineChanClosed] start)
          = map JSON rs
       \<and> (\<forall>r \<in> set rs. (Result r = None) \<noteq> (Error r = None))"
  using response_result_xor_error [of sample_json "embeddedFiles lic contrib"
      "[LineChan tools_list_line, LineChan malformed_line, LineChanClosed]" start JNull _ 0 "[]"]
  by (simp add: start_def)

subsection \<open>One response for each line, in order\<close>

text \<open>
  The statement for a run that receives lines only; a run that returns early has printed what
  the lines received before the return ask for.
\<close>

lemma lines_answered_in_order:
  "\<exists>rs. stdout (runMCPServer J embedded (map LineChan ls) w) = stdout w @ map JSON rs
     \<and> length rs = length (filter (\<lambda>l. l \<noteq> []) ls)
     \<and> (\<forall>k \<le> length ls.
           stdout (runMCPServer J embedded (map LineChan (take k ls)) w) =
             stdout w @ map JSON (take (length (filter (\<lambda>l. l \<noteq> []) (take k ls))) rs))
     \<and> (\<forall>n < length rs.
           case Unmarshal_request J (filter (\<lambda>l. l \<noteq> []) ls ! n) of
             Some req \<Rightarrow> JSONRPCResponse.ID (rs ! n) = JSONRPCRequest.ID req
           | None \<Rightarrow> rs ! n = parse_error_response)"
proof (induction ls rule: rev_induct)
  case Nil
  show ?case by (rule exI [of _ "[]"]) simp
next
  case (snoc l ls)
  let ?ne = "\<lambda>l. l \<noteq> []"
  let ?run = "\<lambda>xs. runMCPServer J embedded (map LineChan xs) w"
  from snoc.IH obtain rs where
    a: "stdout (?run ls) = stdout w @ map JSON rs"
    and b: "length rs = length (filter ?ne ls)"
    and c: "\<forall>k \<le> length ls. stdout (?run (take k ls)) =
              stdout w @ map JSON (take (length (filter ?ne (take k ls))) rs)"
    and d: "\<forall>n < length rs. case Unmarshal_request J (filter ?ne ls ! n) of
              Some req \<Rightarrow> JSONRPCResponse.ID (rs ! n) = JSONRPCRequest.ID req
            | None \<Rightarrow> rs ! n = parse_error_response"
    by blast
  have step: "?run (ls @ [l]) = runMCPServer J embedded [LineChan l] (?run ls)"
    using run_lines_append [of J embedded ls "[LineChan l]" w] by simp
  show ?case
  proof (cases "l = []")
    case True
    have a': "stdout (?run (ls @ [l])) = stdout w @ map JSON rs"
      using step True a by simp
    have b': "length rs = length (filter ?ne (ls @ [l]))"
      using True b by simp
    have c': "stdout (?run (take k (ls @ [l]))) =
                stdout w @ map JSON (take (length (filter ?ne (take k (ls @ [l])))) rs)"
      if "k \<le> length (ls @ [l])" for k
    proof (cases "k \<le> length ls")
      case True
      with c show ?thesis by simp
    next
      case False
      with that have "take k (ls @ [l]) = ls @ [l]" by simp
      with a' b' show ?thesis by simp
    qed
    have d': "case Unmarshal_request J (filter ?ne (ls @ [l]) ! n) of
              Some req \<Rightarrow> JSONRPCResponse.ID (rs ! n) = JSONRPCRequest.ID req
            | None \<Rightarrow> rs ! n = parse_error_response" if "n < length rs" for n
      using that d True by simp
    show ?thesis
      apply (rule exI [of _ rs])
      using a' b' c' d' by blast
  next
    case False
    from run_one_line [OF False, of J embedded "?run ls"] obtain r where
      r: "stdout (runMCPServer J embedded [LineChan l] (?run ls)) = stdout (?run ls) @ [JSON r]"
      and i: "case Unmarshal_request J l of
           Some req \<Rightarrow> JSONRPCResponse.ID r = JSONRPCRequest.ID req
         | None \<Rightarrow> r = parse_error_response"
      by blast
    let ?rs = "rs @ [r]"
    have a': "stdout (?run (ls @ [l])) = stdout w @ map JSON ?rs"
      using step r a by simp
    have b': "length ?rs = length (filter ?ne (ls @ [l]))"
      using False b by simp
    have c': "stdout (?run (take k (ls @ [l]))) =
                stdout w @ map JSON (take (length (filter ?ne (take k (ls @ [l])))) ?rs)"
      if "k \<le> length (ls @ [l])" for k
    proof (cases "k \<le> length ls")
      case True
      have "length (filter ?ne (take k ls)) \<le> length rs"
        using filter_take_le [of ?ne k ls] b by simp
      with True c show ?thesis by simp
    next
      case False
      with that have "take k (ls @ [l]) = ls @ [l]" by simp
      with a' b' show ?thesis by simp
    qed
    have d': "case Unmarshal_request J (filter ?ne (ls @ [l]) ! n) of
              Some req \<Rightarrow> JSONRPCResponse.ID (?rs ! n) = JSONRPCRequest.ID req
            | None \<Rightarrow> ?rs ! n = parse_error_response" if "n < length ?rs" for n
    proof (cases "n < length rs")
      case True
      with d have "case Unmarshal_request J (filter ?ne ls ! n) of
              Some req \<Rightarrow> JSONRPCResponse.ID (rs ! n) = JSONRPCRequest.ID req
            | None \<Rightarrow> rs ! n = parse_error_response" by blast
      with True b \<open>l \<noteq> []\<close> show ?thesis
        by (simp add: nth_append split: option.splits)
    next
      case False
      with that have "n = length rs" by simp
      with i b \<open>l \<noteq> []\<close> show ?thesis
        by (simp add: nth_append split: option.splits)
    qed
    show ?thesis
      apply (rule exI [of _ ?rs])
      using a' b' c' d' by blast
  qed
qed

lemma stdout_run_received:
  "stdout (runMCPServer J E evs w) = stdout (runMCPServer J E (map LineChan (received evs)) w)"
proof (induction evs arbitrary: w)
  case Nil
  show ?case by simp
next
  case (Cons ev evs)
  show ?case
  proof (cases ev)
    case (LineChan line)
    with Cons.IH show ?thesis by (simp split: option.splits)
  qed simp_all
qed

text \<open>
  Claim C5. For every sequence of \<open>select\<close> outcomes, let \<open>received evs\<close> be the lines the
  loop receives before it returns. The responses \<open>rs\<close> printed are as many as the non-empty
  lines among them. After the first \<open>k\<close> lines, the output holds exactly the first responses,
  one for each non-empty line among those \<open>k\<close>: an empty line adds nothing, a non-empty line
  adds one response at the end. The \<open>n\<close>-th response belongs to the \<open>n\<close>-th non-empty line: it
  carries the id of the request decoded from that line, or is the parse error when the line
  does not decode.
\<close>

theorem responses_one_per_line_in_order:
  "\<exists>rs. stdout (runMCPServer J embedded evs w) = stdout w @ map JSON rs
     \<and> length rs = length (filter (\<lambda>l. l \<noteq> []) (received evs))
     \<and> (\<forall>k \<le> length (received evs).
           stdout (runMCPServer J embedded (map LineChan (take k (received evs))) w) =
             stdout w @ map JSON (take (length (filter (\<lambda>l. l \<noteq> []) (take k (received evs)))) rs))
     \<and> (\<forall>n < length rs.
           case Unmarshal_request J (filter (\<lambda>l. l \<noteq> []) (received evs) ! n) of
             Some req \<Rightarrow> JSONRPCResponse.ID (rs ! n) = JSONRPCRequest.ID req
           | None \<Rightarrow> rs ! n = parse_error_response)"
  using lines_answered_in_order [of J embedded "received evs" w]
  by (simp add: stdout_run_received [of J embedded evs w])

text \<open>
  Four lines, the second one empty and the third one malformed, then the end of the input; what
  comes after the end is not read.
\<close>

theorem responses_one_per_line_in_order_witness:
  "\<exists>rs. stdout (runMCPServer sample_json (embeddedFiles lic contrib)
                 [LineChan tools_list_line, LineChan [], LineChan malformed_line,
                  LineChan initialize_line, LineChanClosed, LineChan unknown_line] start)
          = map JSON rs
       \<and> length rs = 3
       \<and> stdout (runMCPServer sample_json (embeddedFiles lic contrib)
                 (map LineChan [tools_list_line, []]) start) = map JSON (take 1 rs)
       \<and> JSONRPCResponse.ID (rs ! 0) = JNumber 0x401C000000000000
       \<and> rs ! 1 = parse_error_response
       \<and> JSONRPCResponse.ID (rs ! 2) = JString ''a''"
proof -
  let ?ls = "[tools_list_line, [], malformed_line, initialize_line]"
  let ?evs = "[LineChan tools_list_line, LineChan [], LineChan malformed_line,
               LineChan initialize_line, LineChanClosed, LineChan unknown_line]"
  have rc: "received ?evs = ?ls" by simp
  have f: "filter (\<lambda>l. l \<noteq> []) ?ls = [tools_list_line, malformed_line, initialize_line]"
    by (simp add: eval_lines)
  from responses_one_per_line_in_order [of sample_json "embeddedFiles lic contrib" ?evs start]
  obtain rs where
    a: "stdout (runMCPServer sample_json (embeddedFiles lic contrib) ?evs start)
          = stdout start @ map JSON rs"
    and b: "length rs = length (filter (\<lambda>l. l \<noteq> []) ?ls)"
    and c: "\<forall>k \<le> length ?ls.
           stdout (runMCPServer sample_json (embeddedFiles lic contrib) (map LineChan (take k ?ls)) start) =
             stdout start @ map JSON (take (length (filter (\<lambda>l. l \<noteq> []) (take k ?ls))) rs)"
    and d: "\<forall>n < length rs.
           case Unmarshal_request sample_json (filter (\<lambda>l. l \<noteq> []) ?ls ! n) of
             Some req \<Rightarrow> JSONRPCResponse.ID (rs ! n) = JSONRPCRequest.ID req
           | None \<Rightarrow> rs ! n = parse_error_response"
    unfolding rc by blast
  from b f have l: "length rs = 3" by simp
  from c have "2 \<le> length ?ls \<longrightarrow>
           stdout (runMCPServer sample_json (embeddedFiles lic contrib) (map LineChan (take 2 ?ls)) start) =
             stdout start @ map JSON (take (length (filter (\<lambda>l. l \<noteq> []) (take 2 ?ls))) rs)"
    by blast
  then have c2: "stdout (runMCPServer sample_json (embeddedFiles lic contrib)
                 (map LineChan [tools_list_line, []]) start) = map JSON (take 1 rs)"
    by (simp add: start_def tools_list_line_def)
  from l have "0 < length rs" by simp
  with d have d0: "case Unmarshal_request sample_json (filter (\<lambda>l. l \<noteq> []) ?ls ! 0) of
             Some req \<Rightarrow> JSONRPCResponse.ID (rs ! 0) = JSONRPCRequest.ID req
           | None \<Rightarrow> rs ! 0 = parse_error_response" by blast
  from l have "1 < length rs" by simp
  with d have d1: "case Unmarshal_request sample_json (filter (\<lambda>l. l \<noteq> []) ?ls ! 1) of
             Some req \<Rightarrow> JSONRPCResponse.ID (rs ! 1) = JSONRPCRequest.ID req
           | None \<Rightarrow> rs ! 1 = parse_error_response" by blast
  from l have "2 < length rs" by simp
  with d have d2: "case Unmarshal_request sample_json (filter (\<lambda>l. l \<noteq> []) ?ls ! 2) of
             Some req \<Rightarrow> JSONRPCResponse.ID (rs ! 2) = JSONRPCRequest.ID req
           | None \<Rightarrow> rs ! 2 = parse_error_response" by blast
  from d0 have i0: "JSONRPCResponse.ID (rs ! 0) = JNumber 0x401C000000000000"
    by (simp add: f) (simp add: eval_lines)
  from d1 have i1: "rs ! 1 = parse_error_response"
    by (simp add: f) (simp add: eval_lines)
  from d2 have i2: "JSONRPCResponse.ID (rs ! 2) = JString ''a''"
    by (simp add: f) (simp add: eval_lines)
  from a l c2 i0 i1 i2 show ?thesis by (auto simp: start_def)
qed

subsection \<open>A line that is not a request\<close>

text \<open>
  Claim C6. For a non-empty line that \<open>json.Unmarshal\<close> rejects, the loop prints the error
  response with id \<open>null\<close> and code \<open>-32700\<close> and goes on with whatever comes next, as if it
  had started there; a following line that decodes into a request is answered, with the id of
  that request.
\<close>

theorem parse_error_continues:
  assumes "line \<noteq> []" and "Unmarshal_request J line = None"
  shows "runMCPServer J embedded (LineChan line # rest) w =
           runMCPServer J embedded rest (w\<lparr>stdout := stdout w @ [JSON parse_error_response]\<rparr>)
       \<and> (\<forall>line' req. line' \<noteq> [] \<and> Unmarshal_request J line' = Some req \<longrightarrow>
            (\<exists>resp. stdout (runMCPServer J embedded [LineChan line, LineChan line'] w) =
                      stdout w @ [JSON parse_error_response, JSON resp]
                  \<and> JSONRPCResponse.ID resp = JSONRPCRequest.ID req))"
proof (intro conjI allI impI)
  show s: "runMCPServer J embedded (LineChan line # rest) w =
           runMCPServer J embedded rest (w\<lparr>stdout := stdout w @ [JSON parse_error_response]\<rparr>)"
    for rest
    using assms by (simp add: sendError_def json_Marshal_def parse_error_response_def)
  fix line' req
  assume n: "line' \<noteq> [] \<and> Unmarshal_request J line' = Some req"
  let ?w1 = "w\<lparr>stdout := stdout w @ [JSON parse_error_response]\<rparr>"
  from n run_one_line [of line' J embedded ?w1] obtain resp where
    "stdout (runMCPServer J embedded [LineChan line'] ?w1) = stdout ?w1 @ [JSON resp]"
    "JSONRPCResponse.ID resp = JSONRPCRequest.ID req" by auto
  with s [of "[LineChan line']"]
  show "\<exists>resp. stdout (runMCPServer J embedded [LineChan line, LineChan line'] w) =
                      stdout w @ [JSON parse_error_response, JSON resp]
                  \<and> JSONRPCResponse.ID resp = JSONRPCRequest.ID req"
    by simp
qed

theorem parse_error_continues_witness:
  "malformed_line \<noteq> [] \<and> Unmarshal_request sample_json malformed_line = None
   \<and> (\<exists>resp. stdout (runMCPServer sample_json (embeddedFiles lic contrib)
                       [LineChan malformed_line, LineChan tools_list_line] start) =
                [JSON parse_error_response, JSON resp]
            \<and> JSONRPCResponse.ID resp = JNumber 0x401C000000000000)"
proof -
  let ?r1 = "\<lparr>JSONRPCRequest.JSONRPC = ''2.0'', JSONRPCRequest.ID = JNumber 0x401C000000000000,
                Method = ''tools/list'', Params = []\<rparr>"
  have h1: "malformed_line \<noteq> []" by (simp add: eval_lines)
  have h2: "Unmarshal_request sample_json malformed_line = None" by (simp add: eval_lines)
  have h3: "tools_list_line \<noteq> [] \<and> Unmarshal_request sample_json tools_list_line = Some ?r1"
    by (simp add: eval_lines)
  from parse_error_continues [OF h1 h2, of "embeddedFiles lic contrib" "[]" start] h3
  have "\<exists>resp. stdout (runMCPServer sample_json (embeddedFiles lic contrib)
                       [LineChan malformed_line, LineChan tools_list_line] start) =
                stdout start @ [JSON parse_error_response, JSON resp]
            \<and> JSONRPCResponse.ID resp = JSONRPCRequest.ID ?r1"
    by blast
  with h1 h2 show ?thesis by (simp add: start_def)
qed

section \<open>The example of the specification\<close>

text \<open>
  A \<open>tools/call\<close> request for the empty directory \<open>/tmp/proj\<close>: both files are created and
  the response carries the encoded \<open>Result\<close> as its one text item.
\<close>

lemma tools_call_example:
  "stdout (runMCPServer sample_json (embeddedFiles lic contrib) [LineChan tools_call_line] start) =
     [JSON \<lparr>JSONRPC = ''2.0'', ID = JNumber 0x3FF0000000000000,
             Result = Some (OfToolCallResult \<lparr>ToolCallResult.Content =
               [\<lparr>ContentItem.Type = ''text'',
                 Text = JSON \<lparr>Directory = ''/tmp/proj'',
                   FilesCreated = [''/tmp/proj/LICENSE'', ''/tmp/proj/CONTRIBUTING.md'']\<rparr>\<rparr>]\<rparr>),
             Error = None\<rparr>]"
proof -
  let ?req = "\<lparr>JSONRPCRequest.JSONRPC = ''2.0'', JSONRPCRequest.ID = JNumber 0x3FF0000000000000,
                Method = ''tools/call'', Params = tools_call_params\<rparr>"
  let ?params = "\<lparr>ToolCallParams.Name = ''init'',
                Arguments = [''directory'' \<mapsto> JString ''/tmp/proj'']\<rparr>"
  have n: "tools_call_line \<noteq> []" by (simp add: tools_call_line_def)
  have u: "Unmarshal_request sample_json tools_call_line = Some ?req"
    by (simp add: eval_lines)
  have p: "Unmarshal_params sample_json tools_call_params = Some ?params"
    by (simp add: sample_json_def)
  have f: "fst (writeFiles (embeddedFiles lic contrib) ''/tmp/proj'' empty_dir) =
             Inr \<lparr>Directory = ''/tmp/proj'',
                   FilesCreated = [''/tmp/proj/LICENSE'', ''/tmp/proj/CONTRIBUTING.md'']\<rparr>"
    by (simp add: eval_run empty_dir_def)
  have h: "stdout (handleToolsCall sample_json (embeddedFiles lic contrib) ?req start) =
     [JSON \<lparr>JSONRPC = ''2.0'', ID = JNumber 0x3FF0000000000000,
             Result = Some (OfToolCallResult \<lparr>ToolCallResult.Content =
               [\<lparr>ContentItem.Type = ''text'',
                 Text = JSON \<lparr>Directory = ''/tmp/proj'',
                   FilesCreated = [''/tmp/proj/LICENSE'', ''/tmp/proj/CONTRIBUTING.md'']\<rparr>\<rparr>]\<rparr>),
             Error = None\<rparr>]"
    using f p
    by (auto simp: handleToolsCall_def stdout_sendResponse json_Marshal_def start_def Let_def
        split: prod.splits)
  show ?thesis using n u h by (simp add: handleRequest_def)
qed

end
